theory Spec2Isabelle
  imports Complex_Main "HOL-Library.Word" "HOL-Library.Multiset"
begin

section \<open>JavaScript strings\<close>

text \<open>
  A JavaScript string is a sequence of UTF-16 code units. The identifiers, nicknames and
  keywords of the plugin are such strings; \<open>null\<close> and \<open>undefined\<close> are \<open>None\<close> of an
  option type where the source admits them.
\<close>

type_synonym jsstring = "16 word list"

text \<open>
  \<open>String.prototype.trim\<close> removes the code units of ECMAScript's WhiteSpace and
  LineTerminator productions from both ends.
\<close>

definition is_js_space :: "16 word \<Rightarrow> bool" where
  "is_js_space c =
     (c = 0x0009 \<or> c = 0x000A \<or> c = 0x000B \<or> c = 0x000C \<or> c = 0x000D \<or> c = 0x0020 \<or>
      c = 0x00A0 \<or> c = 0x1680 \<or> (0x2000 \<le> c \<and> c \<le> 0x200A) \<or> c = 0x2028 \<or>
      c = 0x2029 \<or> c = 0x202F \<or> c = 0x205F \<or> c = 0x3000 \<or> c = 0xFEFF)"

definition trim :: "jsstring \<Rightarrow> jsstring" where
  "trim s = rev (dropWhile is_js_space (rev (dropWhile is_js_space s)))"

text \<open>\<open>s.startsWith(t)\<close> and \<open>s.includes(t)\<close> on code units.\<close>

fun startsWith :: "jsstring \<Rightarrow> jsstring \<Rightarrow> bool" where
  "startsWith s [] = True"
| "startsWith [] (c # t) = False"
| "startsWith (d # s) (c # t) = (d = c \<and> startsWith s t)"

fun js_includes :: "jsstring \<Rightarrow> jsstring \<Rightarrow> bool" where
  "js_includes [] t = (t = [])"
| "js_includes (d # s) t = (startsWith (d # s) t \<or> js_includes s t)"

text \<open>
  The parts of the JavaScript runtime that the source calls and that are not source of the
  repository are parameters of the model: \<open>toLowerCase\<close> is
  \<open>String.prototype.toLowerCase\<close>, and \<open>regExp_i k\<close> is \<open>new RegExp(k, 'i')\<close>:
  \<open>None\<close> when the constructor throws a SyntaxError, otherwise the \<open>test\<close> method of the
  regular expression built.
\<close>

record runtime =
  toLowerCase :: "jsstring \<Rightarrow> jsstring"
  regExp_i :: "jsstring \<Rightarrow> (jsstring \<Rightarrow> bool) option"

section \<open>What the plugin logs and sends\<close>

text \<open>
  The reason of a removal (\<open>kickReason\<close>): the empty string before any check, the
  identifier blacklist, or the nickname blacklist with the keyword that matched.
\<close>

datatype kickReason = NoReason | QQBlacklist | NicknameBlacklist "jsstring option"

text \<open>One constructor for each call of the logger in the source, with the values it prints.\<close>

datatype log_entry =
    Info_scanStart jsstring
  | Info_found jsstring jsstring kickReason
  | Warn_notifyFailed
  | Info_kicked jsstring jsstring kickReason
  | Warn_kickFailed jsstring jsstring kickReason
  | Info_nicknameChanged jsstring jsstring jsstring
  | Info_nicknameViolates jsstring "jsstring option"
  | Warn_delayedCheckFailed jsstring
  | Info_scanDone int int int int int
  | Info_scanClean int int
  | Error_scanFailed
  | Info_botJoined jsstring
  | Info_memberJoined jsstring
  | Debug_memberInfoFailed
  | Debug_userInfoFailed
  | Info_newMember jsstring jsstring
  | Info_delayedCheckSet jsstring
  | Info_started
  | Info_blacklistSize nat
  | Info_nicknameSize nat "jsstring list"
  | Info_matchMode bool bool
  | Info_delayedCheck bool int
  | Info_delayedHint int

text \<open>
  The messages sent with \<open>session.send\<close>: the administrators' notification (the
  template filled with the display name and the reason), the warning of a removal that
  the verification contradicts, and the warning of a removal that failed.
\<close>

datatype message =
    AdminNotify jsstring kickReason
  | WarnStillInGroup jsstring
  | WarnKickFailed jsstring

section \<open>BlacklistManager\<close>

record Stats =
  totalScanned :: int
  totalKicked :: int
  totalFailed :: int
  lastScanTime :: int
  averageScanTime :: real

record BlacklistManager =
  blacklistSet :: "jsstring set"
  nicknameBlacklist :: "jsstring list"
  stats :: Stats

datatype matchMode = contains | regex

text \<open>The object \<open>{ isBlacklisted, matchedKeyword? }\<close> that the nickname check returns.\<close>

record nicknameCheck =
  nc_isBlacklisted :: bool
  nc_matchedKeyword :: "jsstring option"

text \<open>\<open>[...new Set(xs)]\<close>: the elements in order of first occurrence.\<close>

fun js_unique :: "'a list \<Rightarrow> 'a list" where
  "js_unique [] = []"
| "js_unique (x # xs) = x # js_unique (filter (\<lambda>y. y \<noteq> x) xs)"

text \<open>
  \<open>updateBlacklist\<close>: the set is cleared, then filled with the trimmed forms of the
  entries whose trimmed form is not empty; the keyword list is replaced by the trimmed
  forms of the keywords whose trimmed form is not empty, in their order.
\<close>

definition updateBlacklist ::
  "BlacklistManager \<Rightarrow> jsstring list \<Rightarrow> jsstring list \<Rightarrow> BlacklistManager" where
  "updateBlacklist m blacklist nicknames =
     (let cleared = {};
          validEntries = filter (\<lambda>userId. userId \<noteq> [] \<and> length (trim userId) > 0) blacklist;
          uniqueEntries = js_unique (map trim validEntries)
      in m\<lparr>blacklistSet := fold insert uniqueEntries cleared,
           nicknameBlacklist :=
             map trim (filter (\<lambda>keyword. keyword \<noteq> [] \<and> length (trim keyword) > 0) nicknames)\<rparr>)"

definition newBlacklistManager :: "jsstring list \<Rightarrow> jsstring list \<Rightarrow> BlacklistManager" where
  "newBlacklistManager blacklist nicknames =
     updateBlacklist
       \<lparr>blacklistSet = {}, nicknameBlacklist = [],
        stats = \<lparr>totalScanned = 0, totalKicked = 0, totalFailed = 0, lastScanTime = 0,
                 averageScanTime = 0\<rparr>\<rparr>
       blacklist nicknames"

definition isBlacklisted :: "BlacklistManager \<Rightarrow> jsstring \<Rightarrow> bool" where
  "isBlacklisted m userId = (userId \<in> blacklistSet m)"

text \<open>
  One turn of the loop of \<open>isNicknameBlacklisted\<close>: \<open>Inl ()\<close> is the exception that
  the \<open>try\<close> block raises (only the RegExp constructor can), \<open>Inr b\<close> the value of the
  test made in the \<open>try\<close> block.
\<close>

definition try_keyword :: "runtime \<Rightarrow> matchMode \<Rightarrow> jsstring \<Rightarrow> jsstring \<Rightarrow> unit + bool" where
  "try_keyword rt matchMode nickname keyword =
     (case matchMode of
        regex \<Rightarrow> (case regExp_i rt keyword of None \<Rightarrow> Inl () | Some test \<Rightarrow> Inr (test nickname))
      | contains \<Rightarrow> Inr (js_includes (toLowerCase rt nickname) (toLowerCase rt keyword)))"

text \<open>
  The loop over the keywords. The result is the keyword returned as \<open>matchedKeyword\<close>,
  paired with what the loop hands to the logger: the class holds no logger, and the
  \<open>catch\<close> block is the fallback test alone.
\<close>

fun keyword_loop ::
  "runtime \<Rightarrow> matchMode \<Rightarrow> jsstring \<Rightarrow> jsstring list \<Rightarrow> jsstring option \<times> log_entry list" where
  "keyword_loop rt matchMode nickname [] = (None, [])"
| "keyword_loop rt matchMode nickname (keyword # rest) =
     (case try_keyword rt matchMode nickname keyword of
        Inr True \<Rightarrow> (Some keyword, [])
      | Inr False \<Rightarrow> keyword_loop rt matchMode nickname rest
      | Inl _ \<Rightarrow>
          if js_includes (toLowerCase rt nickname) (toLowerCase rt keyword) then (Some keyword, [])
          else keyword_loop rt matchMode nickname rest)"

definition isNicknameBlacklisted ::
  "runtime \<Rightarrow> BlacklistManager \<Rightarrow> jsstring option \<Rightarrow> matchMode \<Rightarrow> nicknameCheck \<times> log_entry list" where
  "isNicknameBlacklisted rt m nickname matchMode =
     (if nickname = None \<or> nickname = Some [] \<or> length (nicknameBlacklist m) = 0
      then (\<lparr>nc_isBlacklisted = False, nc_matchedKeyword = None\<rparr>, [])
      else (case keyword_loop rt matchMode (the nickname) (nicknameBlacklist m) of
              (Some keyword, logged) \<Rightarrow>
                (\<lparr>nc_isBlacklisted = True, nc_matchedKeyword = Some keyword\<rparr>, logged)
            | (None, logged) \<Rightarrow> (\<lparr>nc_isBlacklisted = False, nc_matchedKeyword = None\<rparr>, logged)))"

text \<open>\<open>updateStats\<close>, with the arithmetic of the source on the reals.\<close>

definition updateStats :: "BlacklistManager \<Rightarrow> int \<Rightarrow> int \<Rightarrow> int \<Rightarrow> int \<Rightarrow> BlacklistManager" where
  "updateStats m scanned kicked failed scanTime =
     (let st = stats m;
          st1 = st\<lparr>totalScanned := totalScanned st + scanned,
                   totalKicked := totalKicked st + kicked,
                   totalFailed := totalFailed st + failed,
                   lastScanTime := scanTime\<rparr>;
          totalScans = max 1 (real_of_int (totalScanned st1) / real_of_int (max 1 scanned))
      in m\<lparr>stats := st1\<lparr>averageScanTime :=
            (averageScanTime st1 * (totalScans - 1) + real_of_int scanTime) / totalScans\<rparr>\<rparr>)"

section \<open>ConcurrencyController\<close>

text \<open>
  The controller's fields are \<open>maxConcurrent\<close>, \<open>running\<close> and \<open>queue\<close>. The limit
  is the number of the configuration as it is, whole or not, and the class only compares
  it with the counter, so it is a real here; the counter is a whole number. The other
  components record its history and are read by no operation: the tasks in the order
  \<open>execute\<close> received them, the tasks in the order they were started, the tasks started
  whose promise has not settled, the tasks settled whose wrapper has not reached its
  \<open>finally\<close> block, and how the promise that \<open>execute\<close> returned was settled for each
  task (with the task's own result: a value or an error).
\<close>

record ('t, 'r) controller =
  cc_maxConcurrent :: real
  running :: int
  queue :: "'t list"
  submitted :: "'t list"
  admitted :: "'t list"
  executing :: "'t list"
  releasing :: "'t list"
  settled :: "('t \<times> 'r) list"

definition newController :: "real \<Rightarrow> ('t, 'r) controller" where
  "newController n =
     \<lparr>cc_maxConcurrent = n, running = 0, queue = [], submitted = [], admitted = [],
      executing = [], releasing = [], settled = []\<rparr>"

text \<open>\<open>processQueue\<close> up to its \<open>await\<close>: the head of the queue is started.\<close>

definition processQueue :: "('t, 'r) controller \<Rightarrow> ('t, 'r) controller" where
  "processQueue c =
     (if real_of_int (running c) \<ge> cc_maxConcurrent c \<or> length (queue c) = 0 then c
      else c\<lparr>running := running c + 1, queue := tl (queue c),
             admitted := admitted c @ [hd (queue c)],
             executing := executing c @ [hd (queue c)]\<rparr>)"

text \<open>\<open>execute(task)\<close> up to the return of its promise.\<close>

definition execute :: "'t \<Rightarrow> ('t, 'r) controller \<Rightarrow> ('t, 'r) controller" where
  "execute task c = processQueue (c\<lparr>queue := queue c @ [task], submitted := submitted c @ [task]\<rparr>)"

definition remove_at :: "nat \<Rightarrow> 'a list \<Rightarrow> 'a list" where
  "remove_at k xs = take k xs @ drop (Suc k) xs"

text \<open>
  The task at a position of \<open>executing\<close> settles with a result: the wrapper resolves or
  rejects the promise of \<open>execute\<close> with it.
\<close>

definition task_settles :: "nat \<Rightarrow> 'r \<Rightarrow> ('t, 'r) controller \<Rightarrow> ('t, 'r) controller" where
  "task_settles k r c =
     c\<lparr>executing := remove_at k (executing c),
       releasing := releasing c @ [executing c ! k],
       settled := settled c @ [(executing c ! k, r)]\<rparr>"

text \<open>The \<open>finally\<close> block of \<open>processQueue\<close>, for the wrapper at a position of
  \<open>releasing\<close>.\<close>

definition finally_block :: "nat \<Rightarrow> ('t, 'r) controller \<Rightarrow> ('t, 'r) controller" where
  "finally_block k c = processQueue (c\<lparr>running := running c - 1, releasing := remove_at k (releasing c)\<rparr>)"

text \<open>
  The events of a controller, in any interleaving: a task is submitted, a running task
  settles, a settled task's wrapper resumes. An event that cannot occur has no successor.
\<close>

datatype ('t, 'r) cc_event = Execute 't | TaskSettles nat 'r | Finally nat

definition cc_step :: "('t, 'r) controller \<Rightarrow> ('t, 'r) cc_event \<Rightarrow> ('t, 'r) controller option" where
  "cc_step c ev =
     (case ev of
        Execute task \<Rightarrow> Some (execute task c)
      | TaskSettles k r \<Rightarrow> if k < length (executing c) then Some (task_settles k r c) else None
      | Finally k \<Rightarrow> if k < length (releasing c) then Some (finally_block k c) else None)"

fun cc_run :: "('t, 'r) controller \<Rightarrow> ('t, 'r) cc_event list \<Rightarrow> ('t, 'r) controller option" where
  "cc_run c [] = Some c"
| "cc_run c (ev # evs) = (case cc_step c ev of None \<Rightarrow> None | Some c1 \<Rightarrow> cc_run c1 evs)"

text \<open>The tasks that the \<open>execute\<close> events of a run submit, in their order.\<close>

fun submissions :: "('t, 'r) cc_event list \<Rightarrow> 't list" where
  "submissions [] = []"
| "submissions (Execute task # evs) = task # submissions evs"
| "submissions (TaskSettles k r # evs) = submissions evs"
| "submissions (Finally k # evs) = submissions evs"

text \<open>
  Completion without further submissions: at each turn one of the events that can occur
  (a running task settles with its result \<open>res\<close>, or a wrapper resumes) is chosen by
  \<open>pick\<close> from the number of the turn, so that every order of completion is a \<open>pick\<close>.
  With nothing running and nothing to resume, no event can occur.
\<close>

definition completions :: "('t \<Rightarrow> 'r) \<Rightarrow> ('t, 'r) controller \<Rightarrow> ('t, 'r) cc_event list" where
  "completions res c =
     map (\<lambda>k. TaskSettles k (res (executing c ! k))) [0..<length (executing c)]
     @ map Finally [0..<length (releasing c)]"

fun drain :: "(nat \<Rightarrow> nat) \<Rightarrow> ('t \<Rightarrow> 'r) \<Rightarrow> nat \<Rightarrow> ('t, 'r) controller \<Rightarrow> ('t, 'r) controller" where
  "drain pick res 0 c = c"
| "drain pick res (Suc n) c =
     (case completions res c of
        [] \<Rightarrow> c
      | ev # evs \<Rightarrow>
          (case cc_step c ((ev # evs) ! (pick n mod length (ev # evs))) of
             None \<Rightarrow> c
           | Some c1 \<Rightarrow> drain pick res n c1))"

text \<open>The number of completion events that a state still owes.\<close>

definition outstanding :: "('t, 'r) controller \<Rightarrow> nat" where
  "outstanding c = 2 * length (queue c) + 2 * length (executing c) + length (releasing c)"

section \<open>Configuration, platform and sessions\<close>

text \<open>The options of \<open>Config\<close> that the code reads; the numbers are taken as integers.\<close>

record Config =
  blacklist :: "jsstring list"
  nicknameBlacklistCfg :: "jsstring list"
  enableJoinScan :: bool
  enableMemberJoin :: bool
  enableDelayedNicknameCheck :: bool
  delayedCheckTime :: int
  notifyAdmins :: bool
  scanDelay :: int
  batchSize :: int
  maxConcurrent :: int
  kickDelay :: int
  retryAttempts :: int
  retryDelay :: int
  enableStats :: bool
  skipBotMembers :: bool
  verifyKickResult :: bool
  verifyDelay :: int
  nicknameMatchMode :: matchMode

text \<open>
  A member record as the platform returns it: \<open>user.id\<close>, \<open>user.isBot\<close> and the fields
  that \<open>getUserNickname\<close> probes; a field that is absent or not a string is \<open>None\<close>.
\<close>

record member =
  user_id :: jsstring
  user_isBot :: bool
  mb_user_name :: "jsstring option"
  mb_user_username :: "jsstring option"
  mb_nick :: "jsstring option"
  mb_nickname :: "jsstring option"
  mb_displayName :: "jsstring option"

text \<open>The \<open>name\<close> and \<open>username\<close> of what \<open>bot.getUser\<close> returns.\<close>

record userInfo =
  ui_name :: "jsstring option"
  ui_username :: "jsstring option"

text \<open>
  A session: the fields the handlers read, and whether it has a \<open>send\<close> method (an
  event session has; the object \<open>{ guildId, userId, bot }\<close> that
  \<open>delayedNicknameCheck\<close> builds has not).
\<close>

record session =
  s_guildId :: jsstring
  s_userId :: jsstring
  s_author_isBot :: bool
  s_username :: "jsstring option"
  s_author_name :: "jsstring option"
  s_user_name :: "jsstring option"
  has_send :: bool

text \<open>What an asynchronous call of the platform does: it resolves with a value or rejects
  with an error that carries a message.\<close>

datatype 'a response = Resolves 'a | Rejects jsstring

text \<open>
  Every interaction with the outside is written to a trace. The platform is a parameter:
  each of its calls answers as a function of the length of the trace at the call, so that
  any sequence of answers is an environment. \<open>now\<close> is \<open>Date.now()\<close>.
\<close>

datatype call =
    KickGuildMember jsstring jsstring
  | GetGuildMemberList jsstring
  | GetGuildMember jsstring jsstring
  | GetUser jsstring
  | Send message bool
  | Sleep int

record env =
  kickGuildMember :: "nat \<Rightarrow> unit response"
  getGuildMemberList :: "nat \<Rightarrow> member list response"
  getGuildMember :: "nat \<Rightarrow> member option response"
  getUser :: "nat \<Rightarrow> userInfo option response"
  send :: "nat \<Rightarrow> unit response"
  now :: "nat \<Rightarrow> int"

text \<open>The errors a flow can end with: a rejected platform call, the error that
  \<open>kickUserWithRetry\<close> throws itself, and the TypeError of calling a missing \<open>send\<close>.\<close>

datatype js_error = ApiError jsstring | StillInGroupError | SendIsNotAFunction

text \<open>
  How an asynchronous function ends: it returns, it throws, or its promise never settles
  (\<open>Pending\<close>).
\<close>

datatype 'a outcome = Returned 'a | Threw js_error | Pending

record world =
  trace :: "call list"
  log :: "log_entry list"
  manager :: BlacklistManager

definition emit :: "call \<Rightarrow> world \<Rightarrow> world" where
  "emit c w = w\<lparr>trace := trace w @ [c]\<rparr>"

definition logger :: "log_entry \<Rightarrow> world \<Rightarrow> world" where
  "logger e w = w\<lparr>log := log w @ [e]\<rparr>"

text \<open>\<open>await new Promise(resolve => setTimeout(resolve, ms))\<close>.\<close>

definition sleep :: "int \<Rightarrow> world \<Rightarrow> world" where
  "sleep ms w = emit (Sleep ms) w"

text \<open>\<open>await session.send(msg)\<close>: the result is the error thrown, if any.\<close>

definition session_send :: "env \<Rightarrow> session \<Rightarrow> message \<Rightarrow> world \<Rightarrow> js_error option \<times> world" where
  "session_send e s msg w =
     (if \<not> has_send s then (Some SendIsNotAFunction, w)
      else (case send e (length (trace w)) of
              Resolves _ \<Rightarrow> (None, emit (Send msg True) w)
            | Rejects err \<Rightarrow> (Some (ApiError err), emit (Send msg False) w)))"

section \<open>getUserNickname\<close>

text \<open>
  The first of the fields, in the order probed, that holds a string whose trimmed form is
  not empty; the result is the trimmed form.
\<close>

fun first_name :: "jsstring option list \<Rightarrow> jsstring option" where
  "first_name [] = None"
| "first_name (None # fs) = first_name fs"
| "first_name (Some v # fs) = (if v \<noteq> [] \<and> trim v \<noteq> [] then Some (trim v) else first_name fs)"

definition getUserNickname :: "member option \<Rightarrow> session option \<Rightarrow> jsstring option" where
  "getUserNickname m s =
     (let nickname1 =
            (case m of None \<Rightarrow> None
             | Some mb \<Rightarrow> first_name [mb_user_name mb, mb_user_username mb, mb_nick mb, mb_nickname mb, mb_displayName mb])
      in if (nickname1 = None \<or> nickname1 = Some []) \<and> s \<noteq> None
         then (case first_name [s_username (the s), s_author_name (the s), s_user_name (the s)] of
                 None \<Rightarrow> nickname1 | Some v \<Rightarrow> Some v)
         else nickname1)"

section \<open>verifyUserKicked and kickUserWithRetry\<close>

text \<open>The two literals that the message of the fallback's error is searched for:
  \<open>not found\<close> and the four-ideograph phrase for "the user does not exist".\<close>

definition not_found :: jsstring where
  "not_found = [0x6E, 0x6F, 0x74, 0x20, 0x66, 0x6F, 0x75, 0x6E, 0x64]"

definition user_not_exist :: jsstring where
  "user_not_exist = [0x7528, 0x6237, 0x4E0D, 0x5B58, 0x5728]"

text \<open>
  \<open>verifyUserKicked\<close> returns whether the user is still a member. A function that
  returns or throws has a sum as result: \<open>Inr\<close> the value returned, \<open>Inl\<close> the error
  thrown.
\<close>

definition verifyUserKicked :: "env \<Rightarrow> session \<Rightarrow> jsstring \<Rightarrow> world \<Rightarrow> (js_error + bool) \<times> world" where
  "verifyUserKicked e s userId w =
     (let w1 = emit (GetGuildMemberList (s_guildId s)) w in
      case getGuildMemberList e (length (trace w)) of
        Resolves memberList \<Rightarrow> (Inr (list_ex (\<lambda>m. user_id m = userId) memberList), w1)
      | Rejects _ \<Rightarrow>
          (let w2 = emit (GetGuildMember (s_guildId s) userId) w1 in
           case getGuildMember e (length (trace w1)) of
             Resolves mb \<Rightarrow> (Inr (mb \<noteq> None), w2)
           | Rejects msg \<Rightarrow>
               if js_includes msg not_found \<or> js_includes msg user_not_exist
               then (Inr False, w2)
               else (Inl (ApiError msg), w2)))"

text \<open>
  The \<open>try\<close> block of one turn of the loop of \<open>kickUserWithRetry\<close>: it returns from
  the function (\<open>Inr\<close>) or leaves through the \<open>catch\<close> block (\<open>Inl\<close>).
\<close>

definition kick_try ::
  "Config \<Rightarrow> env \<Rightarrow> session \<Rightarrow> jsstring \<Rightarrow> jsstring \<Rightarrow> int \<Rightarrow> world \<Rightarrow> (js_error + bool) \<times> world" where
  "kick_try cfg e s userId displayName i w =
     (let w1 = emit (KickGuildMember (s_guildId s) userId) w in
      case kickGuildMember e (length (trace w)) of
        Rejects msg \<Rightarrow> (Inl (ApiError msg), w1)
      | Resolves _ \<Rightarrow>
          if verifyKickResult cfg then
            (case verifyUserKicked e s userId (sleep (verifyDelay cfg) w1) of
               (Inr isStillInGroup, w2) \<Rightarrow>
                 if \<not> isStillInGroup then (Inr True, w2)
                 else if i = retryAttempts cfg - 1 then
                   (case session_send e s (WarnStillInGroup displayName) w2 of
                      (None, w3) \<Rightarrow> (Inr False, w3)
                    | (Some err, w3) \<Rightarrow> (Inl err, w3))
                 else (Inl StillInGroupError, w2)
             | (Inl err, w2) \<Rightarrow> (Inl err, w2))
          else (Inr True, w1))"

function kick_loop ::
  "Config \<Rightarrow> env \<Rightarrow> session \<Rightarrow> jsstring \<Rightarrow> jsstring \<Rightarrow> int \<Rightarrow> world \<Rightarrow> (js_error + bool) \<times> world" where
  "kick_loop cfg e s userId displayName i w =
     (if i < retryAttempts cfg then
        (case kick_try cfg e s userId displayName i w of
           (Inr b, w1) \<Rightarrow> (Inr b, w1)
         | (Inl _, w1) \<Rightarrow>
             if i < retryAttempts cfg - 1
             then kick_loop cfg e s userId displayName (i + 1) (sleep (retryDelay cfg) w1)
             else (case session_send e s (WarnKickFailed displayName) w1 of
                     (None, w2) \<Rightarrow> kick_loop cfg e s userId displayName (i + 1) w2
                   | (Some err, w2) \<Rightarrow> (Inl err, w2)))
      else (Inr False, w))"
  by pat_completeness auto
termination
  by (relation "measure (\<lambda>(cfg, e, s, userId, displayName, i, w). nat (retryAttempts cfg - i))") auto

declare kick_loop.simps [simp del]

definition kickUserWithRetry ::
  "Config \<Rightarrow> env \<Rightarrow> session \<Rightarrow> jsstring \<Rightarrow> jsstring \<Rightarrow> world \<Rightarrow> (js_error + bool) \<times> world" where
  "kickUserWithRetry cfg e s userId displayName w = kick_loop cfg e s userId displayName 0 w"

section \<open>checkAndKickUser\<close>

text \<open>
  The first part of \<open>checkAndKickUser\<close>: the values of \<open>shouldKick\<close> and
  \<open>kickReason\<close> when the checks are done, and what the nickname check logged.
\<close>

definition kick_decision ::
  "runtime \<Rightarrow> Config \<Rightarrow> BlacklistManager \<Rightarrow> jsstring \<Rightarrow> jsstring option \<Rightarrow> (bool \<times> kickReason) \<times> log_entry list" where
  "kick_decision rt cfg m userId nickname =
     (let (shouldKick, reason) =
            (if isBlacklisted m userId then (True, QQBlacklist) else (False, NoReason))
      in if \<not> shouldKick \<and> nickname \<noteq> None \<and> nickname \<noteq> Some [] then
           (case isNicknameBlacklisted rt m nickname (nicknameMatchMode cfg) of
              (nicknameCheck, logged) \<Rightarrow>
                if nc_isBlacklisted nicknameCheck
                then ((True, NicknameBlacklist (nc_matchedKeyword nicknameCheck)), logged)
                else ((shouldKick, reason), logged))
         else ((shouldKick, reason), []))"

text \<open>
  \<open>concurrencyController.execute(task)\<close> for a controller that is idle at the call
  (nothing runs, nothing is queued), which is the case when the flows are taken one at a
  time: \<open>processQueue\<close> admits the task at once unless \<open>running >= maxConcurrent\<close>
  holds at \<open>running = 0\<close>, and then nothing ever admits it.
\<close>

definition execute_idle ::
  "Config \<Rightarrow> (world \<Rightarrow> (js_error + 'a) \<times> world) \<Rightarrow> world \<Rightarrow> 'a outcome \<times> world" where
  "execute_idle cfg task w =
     (if 0 \<ge> maxConcurrent cfg then (Pending, w)
      else (case task w of (Inr v, w1) \<Rightarrow> (Returned v, w1) | (Inl err, w1) \<Rightarrow> (Threw err, w1)))"

definition checkAndKickUser ::
  "runtime \<Rightarrow> Config \<Rightarrow> env \<Rightarrow> session \<Rightarrow> jsstring \<Rightarrow> jsstring option \<Rightarrow> world \<Rightarrow> bool outcome \<times> world" where
  "checkAndKickUser rt cfg e s userId nickname w =
     (let displayName = (if nickname = None \<or> nickname = Some [] then userId else the nickname) in
      case kick_decision rt cfg (manager w) userId nickname of
        ((shouldKick, reason), logged) \<Rightarrow>
          (let w0 = w\<lparr>log := log w @ logged\<rparr> in
           if \<not> shouldKick then (Returned False, w0)
           else
             (let w1 = logger (Info_found displayName userId reason) w0;
                  w2 = (if notifyAdmins cfg then
                          (case session_send e s (AdminNotify displayName reason) w1 of
                             (None, w') \<Rightarrow> w'
                           | (Some _, w') \<Rightarrow> logger Warn_notifyFailed w')
                        else w1)
              in execute_idle cfg
                   (\<lambda>w3. case kickUserWithRetry cfg e s userId displayName w3 of
                            (Inr success, w4) \<Rightarrow>
                              (Inr success,
                               logger (if success then Info_kicked displayName userId reason
                                       else Warn_kickFailed displayName userId reason) w4)
                          | (Inl err, w4) \<Rightarrow> (Inl err, w4))
                   w2)))"

section \<open>scanExistingMembers\<close>

text \<open>The counters of a scan.\<close>

record counters =
  scannedCount :: int
  blacklistedCount :: int
  kickedCount :: int
  failedKickCount :: int

text \<open>
  The classification that the scan makes itself, before it calls \<open>checkAndKickUser\<close>.
\<close>

definition scan_decision ::
  "runtime \<Rightarrow> Config \<Rightarrow> BlacklistManager \<Rightarrow> jsstring \<Rightarrow> jsstring option \<Rightarrow> (bool \<times> kickReason) \<times> log_entry list" where
  "scan_decision rt cfg m userId nickname =
     (if isBlacklisted m userId then ((True, QQBlacklist), [])
      else if nickname \<noteq> None \<and> nickname \<noteq> Some [] then
        (case isNicknameBlacklisted rt m nickname (nicknameMatchMode cfg) of
           (nicknameCheck, logged) \<Rightarrow>
             if nc_isBlacklisted nicknameCheck
             then ((True, NicknameBlacklist (nc_matchedKeyword nicknameCheck)), logged)
             else ((False, NoReason), logged))
      else ((False, NoReason), []))"

text \<open>The body of the loop over the members of a batch, for one member.\<close>

definition scan_member ::
  "runtime \<Rightarrow> Config \<Rightarrow> env \<Rightarrow> session \<Rightarrow> member \<Rightarrow> counters \<Rightarrow> world \<Rightarrow> counters outcome \<times> world" where
  "scan_member rt cfg e s mb c w =
     (let c1 = c\<lparr>scannedCount := scannedCount c + 1\<rparr>;
          userId = user_id mb;
          nickname = getUserNickname (Some mb) None
      in case scan_decision rt cfg (manager w) userId nickname of
           ((shouldKick, reason), logged) \<Rightarrow>
             (let w0 = w\<lparr>log := log w @ logged\<rparr>;
                  pause = (\<lambda>c' w'.
                    if blacklistedCount c' > 0 \<and> maxConcurrent cfg \<noteq> 0
                       \<and> scannedCount c' mod maxConcurrent cfg = 0
                    then sleep (kickDelay cfg) w' else w')
              in if shouldKick then
                   (let c2 = c1\<lparr>blacklistedCount := blacklistedCount c1 + 1\<rparr> in
                    case checkAndKickUser rt cfg e s userId nickname w0 of
                      (Returned kickResult, w1) \<Rightarrow>
                        (let c3 = (if kickResult then c2\<lparr>kickedCount := kickedCount c2 + 1\<rparr>
                                   else c2\<lparr>failedKickCount := failedKickCount c2 + 1\<rparr>)
                         in (Returned c3, pause c3 w1))
                    | (Threw err, w1) \<Rightarrow> (Threw err, w1)
                    | (Pending, w1) \<Rightarrow> (Pending, w1))
                 else (Returned c1, pause c1 w0)))"

fun scan_batch ::
  "runtime \<Rightarrow> Config \<Rightarrow> env \<Rightarrow> session \<Rightarrow> member list \<Rightarrow> counters \<Rightarrow> world \<Rightarrow> counters outcome \<times> world" where
  "scan_batch rt cfg e s [] c w = (Returned c, w)"
| "scan_batch rt cfg e s (mb # rest) c w =
     (case scan_member rt cfg e s mb c w of
        (Returned c1, w1) \<Rightarrow> scan_batch rt cfg e s rest c1 w1
      | (Threw err, w1) \<Rightarrow> (Threw err, w1)
      | (Pending, w1) \<Rightarrow> (Pending, w1))"

text \<open>
  \<open>Array.prototype.slice(start, end)\<close> with integer arguments: a negative index counts
  from the end, and both are clamped to the array.
\<close>

definition js_slice :: "'a list \<Rightarrow> int \<Rightarrow> int \<Rightarrow> 'a list" where
  "js_slice xs start end' =
     (let len = int (length xs);
          k = (if start < 0 then max (len + start) 0 else min start len);
          final = (if end' < 0 then max (len + end') 0 else min end' len)
      in take (nat (final - k)) (drop (nat k) xs))"

text \<open>
  The loop over the batches, \<open>for (let i = 0; i < filteredMembers.length; i += batchSize)\<close>.
  A batch size below one never takes \<open>i\<close> to the length, so the turns are counted by a
  fuel; each turn uses one unit, and \<open>None\<close> is a loop that has used it up.
\<close>

fun scan_batches ::
  "nat \<Rightarrow> runtime \<Rightarrow> Config \<Rightarrow> env \<Rightarrow> session \<Rightarrow> member list \<Rightarrow> int \<Rightarrow> counters \<Rightarrow> world \<Rightarrow> (counters outcome \<times> world) option" where
  "scan_batches fuel rt cfg e s filteredMembers i c w =
     (if i < int (length filteredMembers) then
        (case fuel of
           0 \<Rightarrow> None
         | Suc fuel' \<Rightarrow>
             (case scan_batch rt cfg e s (js_slice filteredMembers i (i + batchSize cfg)) c w of
                (Returned c1, w1) \<Rightarrow>
                  scan_batches fuel' rt cfg e s filteredMembers (i + batchSize cfg) c1
                    (if i + batchSize cfg < int (length filteredMembers) then sleep 1000 w1 else w1)
              | (Threw err, w1) \<Rightarrow> Some (Threw err, w1)
              | (Pending, w1) \<Rightarrow> Some (Pending, w1)))
      else Some (Returned c, w))"

text \<open>
  \<open>scanExistingMembers\<close>. The \<open>catch\<close> block takes every error thrown between the
  listing and the last log of the \<open>try\<close> block, so the function itself never throws.
\<close>

definition scanExistingMembers ::
  "nat \<Rightarrow> runtime \<Rightarrow> Config \<Rightarrow> env \<Rightarrow> session \<Rightarrow> world \<Rightarrow> (unit outcome \<times> world) option" where
  "scanExistingMembers fuel rt cfg e s w =
     (if \<not> enableJoinScan cfg then Some (Returned (), w)
      else
        (let startTime = now e (length (trace w));
             w0 = logger (Info_scanStart (s_guildId s)) w;
             w1 = emit (GetGuildMemberList (s_guildId s)) w0
         in case getGuildMemberList e (length (trace w0)) of
              Rejects msg \<Rightarrow> Some (Returned (), logger Error_scanFailed w1)
            | Resolves memberList \<Rightarrow>
                (let filteredMembers =
                       (if skipBotMembers cfg then filter (\<lambda>mb. \<not> user_isBot mb) memberList
                        else memberList)
                 in case scan_batches fuel rt cfg e s filteredMembers 0
                           \<lparr>scannedCount = 0, blacklistedCount = 0, kickedCount = 0,
                            failedKickCount = 0\<rparr> w1 of
                      None \<Rightarrow> None
                    | Some (Returned c, w2) \<Rightarrow>
                        (let scanTime = now e (length (trace w2)) - startTime;
                             w3 = (if enableStats cfg
                                   then w2\<lparr>manager := updateStats (manager w2) (scannedCount c)
                                             (kickedCount c) (failedKickCount c) scanTime\<rparr>
                                   else w2)
                         in Some (Returned (),
                             logger (if blacklistedCount c > 0
                                     then Info_scanDone (scannedCount c) (blacklistedCount c)
                                            (kickedCount c) (failedKickCount c) scanTime
                                     else Info_scanClean (scannedCount c) scanTime) w3))
                    | Some (Threw err, w2) \<Rightarrow> Some (Returned (), logger Error_scanFailed w2)
                    | Some (Pending, w2) \<Rightarrow> Some (Pending, w2))))"

section \<open>The plugin: handlers, timers and disposal\<close>

text \<open>
  An entry of \<open>newUserNicknameCache\<close>, and an armed one-shot timer of the delayed
  check with the values its callback closes over (user, guild, nickname at the join).
\<close>

record cache_entry =
  ce_nickname :: jsstring
  ce_guildId :: jsstring
  joinTime :: int

datatype timer = RecheckTimer jsstring jsstring jsstring

text \<open>
  The state of the plugin between two events: the world, the cache, the timers that
  \<open>setTimeout\<close> has armed and that have not fired (the handle that \<open>setTimeout\<close>
  returns is not kept by the source), and whether the interval that reloads the blacklist
  is armed.
\<close>

record plugin =
  pworld :: world
  newUserNicknameCache :: "jsstring \<rightharpoonup> cache_entry"
  timeouts :: "timer list"
  configCheckInterval :: bool

definition cache_delete :: "jsstring \<Rightarrow> plugin \<Rightarrow> plugin" where
  "cache_delete userId p = p\<lparr>newUserNicknameCache := (newUserNicknameCache p)(userId := None)\<rparr>"

definition delayedNicknameCheck ::
  "runtime \<Rightarrow> Config \<Rightarrow> env \<Rightarrow> jsstring \<Rightarrow> jsstring \<Rightarrow> jsstring \<Rightarrow> plugin \<Rightarrow> unit outcome \<times> plugin" where
  "delayedNicknameCheck rt cfg e userId guildId originalNickname p =
     (let w = pworld p; w1 = emit (GetGuildMember guildId userId) w in
      case getGuildMember e (length (trace w)) of
        Rejects msg \<Rightarrow>
          (Returned (), cache_delete userId (p\<lparr>pworld := logger (Warn_delayedCheckFailed userId) w1\<rparr>))
      | Resolves None \<Rightarrow> (Returned (), cache_delete userId (p\<lparr>pworld := w1\<rparr>))
      | Resolves (Some memberInfo) \<Rightarrow>
          (let currentNickname = getUserNickname (Some memberInfo) None in
           if currentNickname \<noteq> None \<and> currentNickname \<noteq> Some []
              \<and> the currentNickname \<noteq> originalNickname \<and> the currentNickname \<noteq> userId
           then
             (let w2 = logger (Info_nicknameChanged userId originalNickname (the currentNickname)) w1 in
              case isNicknameBlacklisted rt (manager w2) currentNickname (nicknameMatchMode cfg) of
                (nicknameCheck, logged) \<Rightarrow>
                  (let w3 = w2\<lparr>log := log w2 @ logged\<rparr> in
                   if nc_isBlacklisted nicknameCheck then
                     (let w4 = logger (Info_nicknameViolates (the currentNickname)
                                         (nc_matchedKeyword nicknameCheck)) w3;
                          kickSession = \<lparr>s_guildId = guildId, s_userId = userId, s_author_isBot = False,
                                         s_username = None, s_author_name = None, s_user_name = None,
                                         has_send = False\<rparr>
                      in case checkAndKickUser rt cfg e kickSession userId currentNickname w4 of
                           (Returned _, w5) \<Rightarrow> (Returned (), cache_delete userId (p\<lparr>pworld := w5\<rparr>))
                         | (Threw err, w5) \<Rightarrow>
                             (Returned (),
                              cache_delete userId (p\<lparr>pworld := logger (Warn_delayedCheckFailed userId) w5\<rparr>))
                         | (Pending, w5) \<Rightarrow> (Pending, p\<lparr>pworld := w5\<rparr>))
                   else (Returned (), cache_delete userId (p\<lparr>pworld := w3\<rparr>))))
           else (Returned (), cache_delete userId (p\<lparr>pworld := w1\<rparr>))))"

text \<open>\<open>!nickname || nickname === userId\<close>.\<close>

definition no_nickname :: "jsstring option \<Rightarrow> jsstring \<Rightarrow> bool" where
  "no_nickname nickname userId = (nickname = None \<or> nickname = Some [] \<or> nickname = Some userId)"

text \<open>
  The nickname that the handler of \<open>guild-member-added\<close> resolves before its last
  fallback: the session's fields, then \<open>bot.getGuildMember\<close> (when the session has a
  guild), then \<open>bot.getUser\<close>.
\<close>

definition resolve_nickname :: "env \<Rightarrow> session \<Rightarrow> world \<Rightarrow> jsstring option \<times> world" where
  "resolve_nickname e s w =
     (let userId = s_userId s;
          n0 = getUserNickname None (Some s);
          (n1, w1) =
            (if no_nickname n0 userId \<and> s_guildId s \<noteq> [] then
               (let w' = emit (GetGuildMember (s_guildId s) userId) w in
                case getGuildMember e (length (trace w)) of
                  Resolves memberInfo \<Rightarrow>
                    (let apiNickname = getUserNickname memberInfo None in
                     if apiNickname \<noteq> None \<and> apiNickname \<noteq> Some [] \<and> apiNickname \<noteq> Some userId
                     then (apiNickname, w') else (n0, w'))
                | Rejects msg \<Rightarrow> (n0, logger Debug_memberInfoFailed w'))
             else (n0, w))
      in if no_nickname n1 userId then
           (let w' = emit (GetUser userId) w1 in
            case getUser e (length (trace w1)) of
              Resolves info \<Rightarrow>
                (let userNickname =
                       (case info of None \<Rightarrow> None
                        | Some ui \<Rightarrow>
                            if ui_name ui \<noteq> None \<and> ui_name ui \<noteq> Some [] then ui_name ui
                            else if ui_username ui \<noteq> None \<and> ui_username ui \<noteq> Some []
                            then ui_username ui else None)
                 in if userNickname \<noteq> None \<and> userNickname \<noteq> Some userId
                    then (userNickname, w') else (n1, w'))
            | Rejects msg \<Rightarrow> (n1, logger Debug_userInfoFailed w'))
         else (n1, w1))"

text \<open>
  The end of the handler, once the immediate check has returned
  \<open>immediateCheckResult\<close>: the recheck is registered in the cache and its timer armed.
\<close>

definition register_recheck ::
  "Config \<Rightarrow> env \<Rightarrow> session \<Rightarrow> jsstring \<Rightarrow> bool \<Rightarrow> plugin \<Rightarrow> plugin" where
  "register_recheck cfg e s nickname immediateCheckResult p =
     (if \<not> immediateCheckResult \<and> enableDelayedNicknameCheck cfg \<and> nickname \<noteq> s_userId s then
        (let w = logger (Info_delayedCheckSet (s_userId s)) (pworld p) in
         p\<lparr>pworld := w,
           newUserNicknameCache := (newUserNicknameCache p)(s_userId s \<mapsto>
             \<lparr>ce_nickname = nickname, ce_guildId = s_guildId s,
              joinTime = now e (length (trace w))\<rparr>),
           timeouts := timeouts p @ [RecheckTimer (s_userId s) (s_guildId s) nickname]\<rparr>)
      else p)"

text \<open>The handler of \<open>guild-member-added\<close>.\<close>

definition memberAdded :: "runtime \<Rightarrow> Config \<Rightarrow> env \<Rightarrow> session \<Rightarrow> plugin \<Rightarrow> plugin" where
  "memberAdded rt cfg e s p =
     (if \<not> enableMemberJoin cfg then p
      else
        (let userId = s_userId s;
             w0 = logger (Info_memberJoined userId) (pworld p)
         in if skipBotMembers cfg \<and> s_author_isBot s then p\<lparr>pworld := w0\<rparr>
            else
              (case resolve_nickname e s w0 of
                 (n, w1) \<Rightarrow>
                   if no_nickname n userId \<and> isBlacklisted (manager w1) userId then
                     p\<lparr>pworld := snd (checkAndKickUser rt cfg e s userId None w1)\<rparr>
                   else
                     (let nickname = (if no_nickname n userId then userId else the n);
                          w2 = logger (Info_newMember nickname userId) w1
                      in case checkAndKickUser rt cfg e s userId (Some nickname) w2 of
                           (Returned immediateCheckResult, w3) \<Rightarrow>
                             register_recheck cfg e s nickname immediateCheckResult
                               (p\<lparr>pworld := w3\<rparr>)
                         | (Threw err, w3) \<Rightarrow> p\<lparr>pworld := w3\<rparr>
                         | (Pending, w3) \<Rightarrow> p\<lparr>pworld := w3\<rparr>))))"

text \<open>The handler of \<open>dispose\<close>: \<open>clearInterval(configCheckInterval)\<close> and
  \<open>newUserNicknameCache.clear()\<close>.\<close>

definition dispose :: "plugin \<Rightarrow> plugin" where
  "dispose p = p\<lparr>configCheckInterval := False, newUserNicknameCache := Map.empty\<rparr>"

text \<open>The callback of the interval.\<close>

definition reload :: "Config \<Rightarrow> plugin \<Rightarrow> plugin" where
  "reload cfg p =
     p\<lparr>pworld := (pworld p)\<lparr>manager :=
          updateBlacklist (manager (pworld p)) (blacklist cfg) (nicknameBlacklistCfg cfg)\<rparr>\<rparr>"

text \<open>\<open>apply\<close>: the state when the plugin has started.\<close>

definition apply_plugin :: "Config \<Rightarrow> plugin" where
  "apply_plugin cfg =
     (let m = newBlacklistManager (blacklist cfg) (nicknameBlacklistCfg cfg) in
      \<lparr>pworld = \<lparr>trace = [],
                 log = [Info_started, Info_blacklistSize (card (blacklistSet m)),
                        Info_nicknameSize (length (nicknameBlacklist m)) (nicknameBlacklistCfg cfg),
                        Info_matchMode (nicknameMatchMode cfg = regex) (verifyKickResult cfg),
                        Info_delayedCheck (enableDelayedNicknameCheck cfg) (delayedCheckTime cfg)]
                       @ (if enableDelayedNicknameCheck cfg
                          then [Info_delayedHint (delayedCheckTime cfg)] else []),
                 manager = m\<rparr>,
       newUserNicknameCache = Map.empty, timeouts = [], configCheckInterval = True\<rparr>)"

text \<open>
  The events of a running plugin: a member joins, the armed timer at a position of
  \<open>timeouts\<close> fires (a timer fires once: it leaves the list and its callback runs), the
  interval fires, the plugin is disposed. An event that cannot occur in a state (no such
  timer, interval not armed) has no successor.
\<close>

datatype plugin_event = MemberAdded session | TimeoutFires nat | IntervalFires | Dispose

definition plugin_step :: "runtime \<Rightarrow> Config \<Rightarrow> env \<Rightarrow> plugin \<Rightarrow> plugin_event \<Rightarrow> plugin option" where
  "plugin_step rt cfg e p ev =
     (case ev of
        MemberAdded s \<Rightarrow> Some (memberAdded rt cfg e s p)
      | TimeoutFires k \<Rightarrow>
          if k < length (timeouts p) then
            (case timeouts p ! k of
               RecheckTimer userId guildId nickname \<Rightarrow>
                 Some (snd (delayedNicknameCheck rt cfg e userId guildId nickname
                              (p\<lparr>timeouts := take k (timeouts p) @ drop (Suc k) (timeouts p)\<rparr>))))
          else None
      | IntervalFires \<Rightarrow> if configCheckInterval p then Some (reload cfg p) else None
      | Dispose \<Rightarrow> Some (dispose p))"

fun plugin_run :: "runtime \<Rightarrow> Config \<Rightarrow> env \<Rightarrow> plugin \<Rightarrow> plugin_event list \<Rightarrow> plugin option" where
  "plugin_run rt cfg e p [] = Some p"
| "plugin_run rt cfg e p (ev # evs) =
     (case plugin_step rt cfg e p ev of None \<Rightarrow> None | Some p1 \<Rightarrow> plugin_run rt cfg e p1 evs)"

section \<open>The matching that the specification words\<close>


section \<open>Concrete inputs\<close>

text \<open>
  A runtime to evaluate the definitions at: it lower-cases the ASCII letters, and its
  regular-expression constructor rejects the pattern \<open>(\<close>, takes \<open>a*\<close> as the pattern
  that every string matches, and reads any other pattern as a literal.
\<close>

definition ascii_lower :: "16 word \<Rightarrow> 16 word" where
  "ascii_lower c = (if 0x41 \<le> c \<and> c \<le> 0x5A then c + 0x20 else c)"

definition sample_runtime :: runtime where
  "sample_runtime =
     \<lparr>toLowerCase = map ascii_lower,
      regExp_i = (\<lambda>k. if k = [0x28] then None
                      else if k = [0x61, 0x2A] then Some (\<lambda>s. True)
                      else Some (\<lambda>s. js_includes (map ascii_lower s) (map ascii_lower k)))\<rparr>"

text \<open>
  A manager loaded with the identifier \<open>11\<close> and the keywords \<open>zz\<close>, \<open>admin\<close> (with a
  leading blank), \<open>min\<close> and \<open>(\<close>; and a configuration with the defaults of the schema,
  but one attempt only.
\<close>

definition sample_manager :: BlacklistManager where
  "sample_manager =
     newBlacklistManager [[0x31, 0x31]]
       [[0x7A, 0x7A], [0x20, 0x61, 0x64, 0x6D, 0x69, 0x6E], [0x6D, 0x69, 0x6E], [0x28]]"

definition sample_config :: Config where
  "sample_config =
     \<lparr>blacklist = [[0x31, 0x31]],
      nicknameBlacklistCfg =
        [[0x7A, 0x7A], [0x20, 0x61, 0x64, 0x6D, 0x69, 0x6E], [0x6D, 0x69, 0x6E], [0x28]],
      enableJoinScan = True, enableMemberJoin = True, enableDelayedNicknameCheck = True,
      delayedCheckTime = 300000, notifyAdmins = False, scanDelay = 5000, batchSize = 50,
      maxConcurrent = 3, kickDelay = 2000, retryAttempts = 1, retryDelay = 5000,
      enableStats = True, skipBotMembers = True, verifyKickResult = True, verifyDelay = 2000,
      nicknameMatchMode = contains\<rparr>"

text \<open>
  A member \<open>22\<close> with the nickname \<open>bob\<close>, a session for that member in the guild
  \<open>g\<close>, and a world with nothing done yet.
\<close>

definition sample_member :: member where
  "sample_member =
     \<lparr>user_id = [0x32, 0x32], user_isBot = False, mb_user_name = None, mb_user_username = None,
      mb_nick = Some [0x62, 0x6F, 0x62], mb_nickname = None, mb_displayName = None\<rparr>"

text \<open>
  Platforms: one where every call resolves and the member is listed; one where both
  membership queries reject with the message \<open>err\<close>; one where the member has taken the
  nickname \<open>admin\<close> and is gone from the list after a removal; and one where the member
  has taken that nickname and stays listed.
\<close>

definition sample_env :: env where
  "sample_env =
     \<lparr>kickGuildMember = (\<lambda>n. Resolves ()),
      getGuildMemberList = (\<lambda>n. Resolves [sample_member]),
      getGuildMember = (\<lambda>n. Resolves (Some sample_member)),
      getUser = (\<lambda>n. Resolves None),
      send = (\<lambda>n. Resolves ()),
      now = (\<lambda>n. int n)\<rparr>"

definition failing_env :: env where
  "failing_env =
     sample_env\<lparr>getGuildMemberList := (\<lambda>n. Rejects [0x65, 0x72, 0x72]),
                getGuildMember := (\<lambda>n. Rejects [0x65, 0x72, 0x72])\<rparr>"

definition renamed_env :: env where
  "renamed_env =
     sample_env\<lparr>getGuildMemberList := (\<lambda>n. Resolves []),
                getGuildMember := (\<lambda>n. Resolves (Some (sample_member\<lparr>mb_nick :=
                  Some [0x61, 0x64, 0x6D, 0x69, 0x6E]\<rparr>)))\<rparr>"

definition stuck_env :: env where
  "stuck_env = renamed_env\<lparr>getGuildMemberList := (\<lambda>n. Resolves [sample_member])\<rparr>"

definition sample_session :: session where
  "sample_session =
     \<lparr>s_guildId = [0x67], s_userId = [0x32, 0x32], s_author_isBot = False,
      s_username = Some [0x62, 0x6F, 0x62], s_author_name = None, s_user_name = None,
      has_send = True\<rparr>"

definition sample_world :: world where
  "sample_world = \<lparr>trace = [], log = [], manager = sample_manager\<rparr>"

text \<open>A controller with limit 2 after three submissions and the end of the first task.\<close>

definition sample_controller :: "(nat, bool) controller" where
  "sample_controller =
     \<lparr>cc_maxConcurrent = 2, running = 2, queue = [3], submitted = [1, 2, 3], admitted = [1, 2],
      executing = [2], releasing = [1], settled = [(1, False)]\<rparr>"

section \<open>Auxiliary notions\<close>

text \<open>
  What holds of a controller with a positive limit in every state it reaches: the counter
  is the number of tasks started and not released, it is less than one above the limit,
  the tasks started and the tasks queued are the tasks submitted in their order, a task
  waits only when the limit is reached, and a task started is running or settled.
\<close>

definition cc_inv :: "real \<Rightarrow> ('t, 'r) controller \<Rightarrow> bool" where
  "cc_inv maxC c \<longleftrightarrow>
     cc_maxConcurrent c = maxC
     \<and> running c = int (length (executing c)) + int (length (releasing c))
     \<and> real_of_int (running c) < maxC + 1
     \<and> admitted c @ queue c = submitted c
     \<and> (queue c \<noteq> [] \<longrightarrow> real_of_int (running c) \<ge> maxC)
     \<and> mset (admitted c) = mset (executing c) + mset (map fst (settled c))"

text \<open>The number of calls of \<open>kickGuildMember\<close> in the trace of a world.\<close>

definition is_kick :: "call \<Rightarrow> bool" where
  "is_kick c = (case c of KickGuildMember _ _ \<Rightarrow> True | _ \<Rightarrow> False)"

definition kick_calls :: "world \<Rightarrow> nat" where
  "kick_calls w = length (filter is_kick (trace w))"

section \<open>Properties of the strings\<close>

lemma set_js_unique: "set (js_unique xs) = set xs"
  by (induction xs rule: js_unique.induct) auto



lemma trim_padded:
  assumes "list_all is_js_space pre" and "list_all is_js_space post"
  shows "trim (pre @ s @ post) = trim s"
proof -
  have a: "dropWhile is_js_space (pre @ s @ post) = dropWhile is_js_space (s @ post)"
    using assms(1) by (intro dropWhile_append2) (auto simp: list_all_iff)
  have b: "\<And>xs. dropWhile is_js_space (rev post @ xs) = dropWhile is_js_space xs"
    using assms(2) by (intro dropWhile_append2) (auto simp: list_all_iff)
  show ?thesis
  proof (cases "\<forall>c\<in>set s. is_js_space c")
    case True
    have e1: "dropWhile is_js_space (s @ post) = []"
      by (rule iffD2 [OF dropWhile_eq_Nil_conv]) (use True assms(2) in \<open>auto simp: list_all_iff\<close>)
    have e2: "dropWhile is_js_space s = []"
      by (rule iffD2 [OF dropWhile_eq_Nil_conv]) (use True in auto)
    show ?thesis unfolding trim_def a e1 e2 by simp
  next
    case False
    then have e3: "dropWhile is_js_space (s @ post) = dropWhile is_js_space s @ post"
      by (auto simp: dropWhile_append1)
    show ?thesis unfolding trim_def a e3 by (simp add: b)
  qed
qed

lemma blacklistSet_updateBlacklist:
  "blacklistSet (updateBlacklist m bl nks) = {trim entry | entry. entry \<in> set bl \<and> trim entry \<noteq> []}"
proof -
  have f: "\<And>xs A. fold insert xs A = set xs \<union> A"
    subgoal for xs A by (induction xs arbitrary: A) auto
    done
  show ?thesis
    by (auto simp: updateBlacklist_def Let_def f set_js_unique trim_def)
qed

section \<open>The identifier blacklist\<close>

text \<open>
  Claim C5. After \<open>updateBlacklist\<close> with any identifier list, whatever was loaded
  before, \<open>isBlacklisted\<close> holds of an identifier exactly when it is the trimmed form of
  an entry of the list that is not empty once trimmed (the entries the load keeps).
  Blanks around the entries, and the order and the repetition of the entries, change no
  answer.
\<close>

theorem isBlacklisted_after_updateBlacklist:
  assumes "list_all is_js_space pre" and "list_all is_js_space post" and "set bl' = set bl"
  shows "(isBlacklisted (updateBlacklist m bl nks) userId
            \<longleftrightarrow> (\<exists>entry\<in>set bl. trim entry \<noteq> [] \<and> userId = trim entry))
         \<and> isBlacklisted (updateBlacklist m (map (\<lambda>entry. pre @ entry @ post) bl) nks) userId
             = isBlacklisted (updateBlacklist m bl nks) userId
         \<and> isBlacklisted (updateBlacklist m bl' nks) userId = isBlacklisted (updateBlacklist m bl nks) userId"
proof -
  have 1: "isBlacklisted (updateBlacklist m bl nks) userId
            \<longleftrightarrow> (\<exists>entry\<in>set bl. trim entry \<noteq> [] \<and> userId = trim entry)" for bl
    by (auto simp: isBlacklisted_def blacklistSet_updateBlacklist)
  have 2: "isBlacklisted (updateBlacklist m (map (\<lambda>entry. pre @ entry @ post) bl) nks) userId
             = isBlacklisted (updateBlacklist m bl nks) userId"
    unfolding 1 using assms(1,2) by (auto simp: trim_padded)
  have 3: "isBlacklisted (updateBlacklist m bl' nks) userId = isBlacklisted (updateBlacklist m bl nks) userId"
    unfolding 1 using assms(3) by simp
  show ?thesis using 1 2 3 by blast
qed

text \<open>The hypotheses hold, and the answers are as stated, for the list \<open>" ", " 11", "11"\<close>.\<close>

theorem isBlacklisted_after_updateBlacklist_witness:
  "list_all is_js_space [0x20] \<and> list_all is_js_space [0x09, 0x20]
   \<and> set [[0x31, 0x31], [0x20, 0x31, 0x31], [0x20]] = set [[0x20], [0x20, 0x31, 0x31], [0x31, 0x31 :: 16 word]]
   \<and> isBlacklisted (updateBlacklist sample_manager [[0x20], [0x20, 0x31, 0x31], [0x31, 0x31]] []) [0x31, 0x31]
   \<and> isBlacklisted (updateBlacklist sample_manager (map (\<lambda>entry. [0x20] @ entry @ [0x09, 0x20]) [[0x20], [0x20, 0x31, 0x31], [0x31, 0x31]]) []) [0x31, 0x31]
   \<and> \<not> isBlacklisted (updateBlacklist sample_manager [[0x20], [0x20, 0x31, 0x31], [0x31, 0x31]] []) []"
proof -
  have h1: "list_all is_js_space [0x20]" by (simp add: is_js_space_def)
  have h2: "list_all is_js_space [0x09, 0x20]" by (simp add: is_js_space_def)
  have h3: "set [[0x31, 0x31], [0x20, 0x31, 0x31], [0x20]] = set [[0x20], [0x20, 0x31, 0x31], [0x31, 0x31 :: 16 word]]"
    by auto
  have t: "trim [0x20, 0x31, 0x31] = [0x31, 0x31]" "trim [0x31, 0x31] = [0x31, 0x31]" "trim [0x20] = []"
    by (simp_all add: trim_def is_js_space_def)
  show ?thesis
    using isBlacklisted_after_updateBlacklist [OF h1 h2 h3, of sample_manager "[]" "[0x31, 0x31]"]
      isBlacklisted_after_updateBlacklist [OF h1 h2 h3, of sample_manager "[]" "[]"] h1 h2 h3 t
    by simp
qed

text \<open>The sample manager as loaded.\<close>

lemma sample_manager_keywords:
  "nicknameBlacklist sample_manager = [[0x7A, 0x7A], [0x61, 0x64, 0x6D, 0x69, 0x6E], [0x6D, 0x69, 0x6E], [0x28]]"
  by (simp add: sample_manager_def newBlacklistManager_def updateBlacklist_def trim_def is_js_space_def)

lemma sample_manager_set: "blacklistSet sample_manager = {[0x31, 0x31]}"
  by (simp add: sample_manager_def newBlacklistManager_def updateBlacklist_def trim_def is_js_space_def)

section \<open>The nickname blacklist\<close>






text \<open>
  Claim C10. In every match mode, \<open>isNicknameBlacklisted\<close> returns no match (no keyword)
  when the nickname is null or empty, or when no keyword is loaded.
\<close>

theorem isNicknameBlacklisted_guard:
  assumes "nickname = None \<or> nickname = Some [] \<or> nicknameBlacklist m = []"
  shows "isNicknameBlacklisted rt m nickname mode
           = (\<lparr>nc_isBlacklisted = False, nc_matchedKeyword = None\<rparr>, [])"
  using assms by (auto simp: isNicknameBlacklisted_def)

theorem isNicknameBlacklisted_guard_witness:
  "isNicknameBlacklisted sample_runtime sample_manager None regex
       = (\<lparr>nc_isBlacklisted = False, nc_matchedKeyword = None\<rparr>, [])
   \<and> isNicknameBlacklisted sample_runtime sample_manager (Some []) contains
       = (\<lparr>nc_isBlacklisted = False, nc_matchedKeyword = None\<rparr>, [])
   \<and> nicknameBlacklist (newBlacklistManager [] [[0x20]]) = []
   \<and> isNicknameBlacklisted sample_runtime (newBlacklistManager [] [[0x20]]) (Some [0x78]) contains
       = (\<lparr>nc_isBlacklisted = False, nc_matchedKeyword = None\<rparr>, [])"
proof -
  have e: "nicknameBlacklist (newBlacklistManager [] [[0x20]]) = []"
    by (simp add: newBlacklistManager_def updateBlacklist_def trim_def is_js_space_def)
  show ?thesis
    using isNicknameBlacklisted_guard [of None sample_manager sample_runtime regex]
      isNicknameBlacklisted_guard [of "Some []" sample_manager sample_runtime contains]
      isNicknameBlacklisted_guard [of "Some [0x78]" "newBlacklistManager [] [[0x20]]" sample_runtime contains]
      e
    by simp
qed

section \<open>Classification\<close>

text \<open>
  Claim C4. For an identifier on the blacklist, the classification of
  \<open>checkAndKickUser\<close>, and the one the scan makes, report the identifier blacklist as
  the reason whatever the nickname is: the identifier is checked first and the nickname
  check is not made.
\<close>

theorem identifier_match_first:
  assumes "isBlacklisted m userId"
  shows "kick_decision rt cfg m userId nickname = ((True, QQBlacklist), [])
         \<and> scan_decision rt cfg m userId nickname = ((True, QQBlacklist), [])"
  using assms by (simp add: kick_decision_def scan_decision_def)

text \<open>An identifier on the blacklist with a nickname that a keyword matches.\<close>

theorem identifier_match_first_witness:
  "isBlacklisted sample_manager [0x31, 0x31]
   \<and> nc_isBlacklisted (fst (isNicknameBlacklisted sample_runtime sample_manager
        (Some [0x78, 0x41, 0x64, 0x4D, 0x69, 0x6E, 0x79]) (nicknameMatchMode sample_config)))
   \<and> kick_decision sample_runtime sample_config sample_manager [0x31, 0x31]
        (Some [0x78, 0x41, 0x64, 0x4D, 0x69, 0x6E, 0x79]) = ((True, QQBlacklist), [])
   \<and> scan_decision sample_runtime sample_config sample_manager [0x31, 0x31]
        (Some [0x78, 0x41, 0x64, 0x4D, 0x69, 0x6E, 0x79]) = ((True, QQBlacklist), [])"
proof -
  have h: "isBlacklisted sample_manager [0x31, 0x31]"
    by (simp add: isBlacklisted_def sample_manager_set)
  have n: "nc_isBlacklisted (fst (isNicknameBlacklisted sample_runtime sample_manager
        (Some [0x78, 0x41, 0x64, 0x4D, 0x69, 0x6E, 0x79]) (nicknameMatchMode sample_config)))"
    by (simp add: isNicknameBlacklisted_def sample_manager_keywords try_keyword_def
        sample_runtime_def ascii_lower_def sample_config_def)
  show ?thesis
    using identifier_match_first [OF h, of sample_runtime sample_config
        "Some [0x78, 0x41, 0x64, 0x4D, 0x69, 0x6E, 0x79]"] h n
    by simp
qed


section \<open>The concurrency controller\<close>

lemma length_remove_at: "k < length xs \<Longrightarrow> length (remove_at k xs) = length xs - 1"
  by (simp add: remove_at_def)

lemma mset_remove_at: "k < length xs \<Longrightarrow> add_mset (xs ! k) (mset (remove_at k xs)) = mset xs"
proof -
  assume k: "k < length xs"
  have "mset xs = mset (take k xs @ xs ! k # drop (Suc k) xs)"
    using id_take_nth_drop [OF k] by simp
  then show ?thesis by (simp add: remove_at_def)
qed

lemma cc_inv_init: "0 < maxC \<Longrightarrow> cc_inv maxC (newController maxC)"
  by (simp add: cc_inv_def newController_def)

lemma cc_inv_processQueue_admit:
  assumes "cc_maxConcurrent c = maxC"
    and "running c = int (length (executing c)) + int (length (releasing c))"
    and "real_of_int (running c) < maxC + 1"
    and "admitted c @ queue c = submitted c"
    and "mset (admitted c) = mset (executing c) + mset (map fst (settled c))"
    and "length (queue c) \<le> 1 \<or> real_of_int (running c) \<ge> maxC - 1"
  shows "cc_inv maxC (processQueue c)"
proof (cases "queue c")
  case Nil
  with assms show ?thesis by (simp add: cc_inv_def processQueue_def)
next
  case (Cons t ts)
  with assms show ?thesis by (auto simp: cc_inv_def processQueue_def)
qed

lemma cc_inv_execute: "cc_inv maxC c \<Longrightarrow> cc_inv maxC (execute task c)"
  unfolding execute_def
  by (rule cc_inv_processQueue_admit) (auto simp: cc_inv_def)

lemma cc_inv_task_settles:
  assumes "cc_inv maxC c" and "k < length (executing c)"
  shows "cc_inv maxC (task_settles k r c)"
  using assms mset_remove_at [OF assms(2)] length_remove_at [OF assms(2)]
  by (auto simp: cc_inv_def task_settles_def)

lemma cc_inv_finally:
  assumes "cc_inv maxC c" and "k < length (releasing c)"
  shows "cc_inv maxC (finally_block k c)"
  unfolding finally_block_def
  using assms length_remove_at [OF assms(2)]
  by (intro cc_inv_processQueue_admit) (auto simp: cc_inv_def)

lemma cc_inv_step: "cc_inv maxC c \<Longrightarrow> cc_step c ev = Some c1 \<Longrightarrow> cc_inv maxC c1"
  by (cases ev)
     (auto simp: cc_step_def cc_inv_execute cc_inv_task_settles cc_inv_finally split: if_splits)

lemma cc_inv_run: "cc_inv maxC c \<Longrightarrow> cc_run c evs = Some c1 \<Longrightarrow> cc_inv maxC c1"
  by (induction evs arbitrary: c) (auto split: option.splits dest: cc_inv_step)

lemma submitted_processQueue: "submitted (processQueue c) = submitted c"
  by (simp add: processQueue_def)

lemma settled_processQueue: "settled (processQueue c) = settled c"
  by (simp add: processQueue_def)

lemma outstanding_task_settles:
  "k < length (executing c) \<Longrightarrow> Suc (outstanding (task_settles k r c)) = outstanding c"
  using length_remove_at [of k "executing c"]
  by (simp add: outstanding_def task_settles_def)

lemma finally_admits:
  assumes "cc_inv maxC c" and "k < length (releasing c)" and "queue c \<noteq> []"
  shows "admitted (finally_block k c) = admitted c @ [hd (queue c)]"
    and "queue (finally_block k c) = tl (queue c)"
    and "executing (finally_block k c) = executing c @ [hd (queue c)]"
  using assms by (auto simp: cc_inv_def finally_block_def processQueue_def)

lemma outstanding_finally:
  assumes "cc_inv maxC c" and "k < length (releasing c)"
  shows "Suc (outstanding (finally_block k c)) = outstanding c"
proof (cases "queue c")
  case Nil
  then show ?thesis
    using assms length_remove_at [OF assms(2)]
    by (simp add: outstanding_def finally_block_def processQueue_def)
next
  case (Cons t ts)
  then have q: "queue c \<noteq> []" by simp
  have r: "releasing (finally_block k c) = remove_at k (releasing c)"
    by (simp add: finally_block_def processQueue_def)
  show ?thesis
    using finally_admits [OF assms q] Cons r length_remove_at [OF assms(2)] assms(2)
    by (simp add: outstanding_def)
qed

lemma completions_nonempty:
  assumes "cc_inv maxC c" and "0 < maxC" and "outstanding c \<noteq> 0"
  shows "completions res c \<noteq> []"
proof -
  have "executing c \<noteq> [] \<or> releasing c \<noteq> []"
    using assms by (cases "queue c") (auto simp: cc_inv_def outstanding_def)
  then show ?thesis by (auto simp: completions_def)
qed

lemma completions_cases:
  assumes "ev \<in> set (completions res c)"
  shows "(\<exists>k. k < length (executing c) \<and> ev = TaskSettles k (res (executing c ! k)))
         \<or> (\<exists>k. k < length (releasing c) \<and> ev = Finally k)"
  using assms by (auto simp: completions_def)

lemma drain_completes:
  assumes "0 < maxC"
  shows "cc_inv maxC c \<Longrightarrow> outstanding c = n \<Longrightarrow>
         cc_inv maxC (drain pick res n c) \<and> outstanding (drain pick res n c) = 0
         \<and> submitted (drain pick res n c) = submitted c
         \<and> (\<exists>ts. settled (drain pick res n c) = settled c @ map (\<lambda>t. (t, res t)) ts)"
proof (induction n arbitrary: c)
  case 0
  then show ?case by simp
next
  case (Suc n)
  have ne: "completions res c \<noteq> []"
    using completions_nonempty [OF Suc.prems(1) assms] Suc.prems(2) by simp
  define ev where "ev = completions res c ! (pick n mod length (completions res c))"
  have mem: "ev \<in> set (completions res c)"
    unfolding ev_def using ne by simp
  from completions_cases [OF mem]
  consider k where "k < length (executing c)" "ev = TaskSettles k (res (executing c ! k))"
    | k where "k < length (releasing c)" "ev = Finally k"
    by blast
  then obtain c1 where
    step: "cc_step c ev = Some c1" and
    out: "outstanding c1 = n" and
    sub: "submitted c1 = submitted c" and
    st: "\<exists>ts. settled c1 = settled c @ map (\<lambda>t. (t, res t)) ts"
  proof cases
    case 1
    have "\<exists>ts. settled (task_settles k (res (executing c ! k)) c) = settled c @ map (\<lambda>t. (t, res t)) ts"
      by (rule exI [of _ "[executing c ! k]"]) (simp add: task_settles_def)
    then show ?thesis
      using that [of "task_settles k (res (executing c ! k)) c"] 1
        outstanding_task_settles [OF 1(1), of "res (executing c ! k)"] Suc.prems(2)
      by (simp add: cc_step_def task_settles_def)
  next
    case 2
    have "\<exists>ts. settled (finally_block k c) = settled c @ map (\<lambda>t. (t, res t)) ts"
      by (rule exI [of _ "[]"]) (simp add: finally_block_def settled_processQueue)
    then show ?thesis
      using that [of "finally_block k c"] 2 outstanding_finally [OF Suc.prems(1) 2(1)] Suc.prems(2)
      by (simp add: cc_step_def finally_block_def submitted_processQueue)
  qed
  have inv1: "cc_inv maxC c1" using cc_inv_step [OF Suc.prems(1) step] .
  have d: "drain pick res (Suc n) c = drain pick res n c1"
    using ne step by (cases "completions res c") (simp_all add: ev_def)
  from Suc.IH [OF inv1 out] obtain ts' where
    a: "cc_inv maxC (drain pick res n c1)" "outstanding (drain pick res n c1) = 0"
       "submitted (drain pick res n c1) = submitted c1"
       "settled (drain pick res n c1) = settled c1 @ map (\<lambda>t. (t, res t)) ts'"
    by blast
  from st obtain ts where b: "settled c1 = settled c @ map (\<lambda>t. (t, res t)) ts" by blast
  have "settled (drain pick res n c1) = settled c @ map (\<lambda>t. (t, res t)) (ts @ ts')"
    using a(4) b by simp
  then have "\<exists>ts. settled (drain pick res n c1) = settled c @ map (\<lambda>t. (t, res t)) ts"
    by (rule exI)
  then show ?case unfolding d using a(1,2,3) sub by simp
qed

lemma submitted_run: "cc_run c evs = Some c1 \<Longrightarrow> submitted c1 = submitted c @ submissions evs"
proof (induction evs arbitrary: c)
  case Nil
  then show ?case by simp
next
  case (Cons ev evs)
  from Cons.prems obtain c2 where s: "cc_step c ev = Some c2" and r: "cc_run c2 evs = Some c1"
    by (auto split: option.splits)
  have "submitted c2 @ submissions evs = submitted c @ submissions (ev # evs)"
    using s
    by (cases ev)
       (auto simp: cc_step_def execute_def task_settles_def finally_block_def
          submitted_processQueue split: if_splits)
  then show ?case using Cons.IH [OF r] by simp
qed

text \<open>
  Claim C1, as the code has it. For a limit above zero, in every state that any
  interleaving of submissions, task completions and wrapper resumptions reaches: the
  number of tasks running is less than one above the limit, and within the limit when
  the limit is a whole number; the tasks recorded as submitted are the tasks of the
  \<open>execute\<close> events of the run, in their order, and the tasks started followed by the
  tasks queued are those tasks in that order; the \<open>finally\<close> block of any settled
  task, whatever its result, starts the head of a queue that is not empty; and when no
  further task is submitted, the completions end in any order \<open>pick\<close> with nothing
  queued, running or left to resume, every task of the run settled once, each task
  settled here with its own result \<open>res\<close>.
\<close>

theorem controller_bounded_fifo_complete:
  assumes "0 < maxC" and "cc_run (newController maxC) evs = Some c"
  shows "real (length (executing c)) < maxC + 1
     \<and> (maxC \<in> \<int> \<longrightarrow> real (length (executing c)) \<le> maxC)
     \<and> submitted c = submissions evs
     \<and> admitted c @ queue c = submissions evs
     \<and> (k < length (releasing c) \<and> queue c \<noteq> []
          \<longrightarrow> admitted (finally_block k c) = admitted c @ [hd (queue c)])
     \<and> (let c' = drain pick res (outstanding c) c in
          queue c' = [] \<and> executing c' = [] \<and> releasing c' = []
          \<and> submitted c' = submissions evs
          \<and> mset (map fst (settled c')) = mset (submissions evs)
          \<and> (\<exists>ts. settled c' = settled c @ map (\<lambda>t. (t, res t)) ts))"
proof -
  have inv: "cc_inv maxC c"
    using cc_inv_run [OF cc_inv_init assms(2)] assms(1) by simp
  have sub: "submitted c = submissions evs"
    using submitted_run [OF assms(2)] by (simp add: newController_def)
  have 1: "real (length (executing c)) < maxC + 1" using inv by (simp add: cc_inv_def)
  have whole: "maxC \<in> \<int> \<longrightarrow> real (length (executing c)) \<le> maxC"
  proof
    assume "maxC \<in> \<int>"
    then obtain z where z: "maxC = of_int z" by (auto elim: Ints_cases)
    have "real_of_int (int (length (executing c))) < real_of_int (z + 1)"
      using 1 z by simp
    then have "int (length (executing c)) < z + 1" by (simp only: of_int_less_iff)
    then have "int (length (executing c)) \<le> z" by simp
    then have "real_of_int (int (length (executing c))) \<le> real_of_int z"
      by (simp only: of_int_le_iff)
    then show "real (length (executing c)) \<le> maxC" using z by simp
  qed
  have 2: "admitted c @ queue c = submissions evs" using inv sub by (simp add: cc_inv_def)
  have 3: "k < length (releasing c) \<and> queue c \<noteq> []
          \<longrightarrow> admitted (finally_block k c) = admitted c @ [hd (queue c)]"
    using finally_admits(1) [OF inv] by blast
  define c' where "c' = drain pick res (outstanding c) c"
  have d: "cc_inv maxC c'" "outstanding c' = 0" "submitted c' = submitted c"
    "\<exists>ts. settled c' = settled c @ map (\<lambda>t. (t, res t)) ts"
    using drain_completes [OF assms(1) inv refl, of pick res] by (simp_all add: c'_def)
  have e: "queue c' = []" "executing c' = []" "releasing c' = []"
    using d(2) by (simp_all add: outstanding_def)
  have "mset (map fst (settled c')) = mset (submitted c')"
    using d(1) e by (simp add: cc_inv_def) (metis append_Nil2)
  then have 4: "queue c' = [] \<and> executing c' = [] \<and> releasing c' = []
          \<and> submitted c' = submissions evs
          \<and> mset (map fst (settled c')) = mset (submissions evs)
          \<and> (\<exists>ts. settled c' = settled c @ map (\<lambda>t. (t, res t)) ts)"
    using d e sub by simp
  show ?thesis using 1 whole sub 2 3 4 unfolding c'_def Let_def by blast
qed

lemma sample_controller_run:
  "cc_run (newController 2) [Execute 1, Execute 2, Execute 3, TaskSettles 0 False] = Some sample_controller"
  by (simp add: cc_step_def execute_def processQueue_def newController_def task_settles_def
      remove_at_def sample_controller_def)

text \<open>Limit 2, the tasks 1, 2 and 3 submitted, task 1 ended with an error.\<close>

theorem controller_bounded_fifo_complete_witness:
  "(0::real) < 2
   \<and> cc_run (newController 2) [Execute 1, Execute 2, Execute 3, TaskSettles 0 False]
       = Some sample_controller
   \<and> (2::real) \<in> \<int>
   \<and> real (length (executing sample_controller)) \<le> 2
   \<and> submitted sample_controller = [1, 2, 3]
   \<and> admitted sample_controller @ queue sample_controller = [1, 2, 3]
   \<and> admitted (finally_block 0 sample_controller) = [1, 2, 3]
   \<and> queue (drain (\<lambda>n. n) (\<lambda>t. t = 2) (outstanding sample_controller) sample_controller) = []
   \<and> mset (map fst (settled (drain (\<lambda>n. n) (\<lambda>t. t = 2) (outstanding sample_controller)
        sample_controller))) = mset [1, 2, 3]"
proof -
  have h: "(0::real) < 2" by simp
  have i: "(2::real) \<in> \<int>" by simp
  show ?thesis
    using controller_bounded_fifo_complete [OF h sample_controller_run, of 0 "\<lambda>n. n" "\<lambda>t. t = 2"]
      sample_controller_run i
    by (simp add: sample_controller_def Let_def)
qed

text \<open>
  Against claim C1 as stated: with the limit 0, which the schema admits, a submitted task
  stays in the queue, no completion can occur, and its promise is never settled; and with
  the limit 1.5, which the schema admits as well, two tasks run at once.
\<close>

theorem controller_limit_counterexample:
  "queue (execute (1::nat) (newController 0 :: (nat, bool) controller)) = [1]
   \<and> admitted (execute (1::nat) (newController 0 :: (nat, bool) controller)) = []
   \<and> completions (\<lambda>t. True) (execute (1::nat) (newController 0 :: (nat, bool) controller)) = []
   \<and> settled (drain (\<lambda>n. n) (\<lambda>t. True) (Suc (Suc 0))
        (execute (1::nat) (newController 0 :: (nat, bool) controller))) = []
   \<and> executing (execute (2::nat) (execute 1 (newController (3 / 2) :: (nat, bool) controller)))
       = [1, 2]
   \<and> \<not> real (length (executing
         (execute (2::nat) (execute 1 (newController (3 / 2) :: (nat, bool) controller))))) \<le> 3 / 2"
  by (simp add: execute_def processQueue_def newController_def completions_def)

text \<open>With a limit below one nothing is ever started or settled, whatever is submitted.\<close>

lemma zero_limit_step:
  assumes "cc_step c ev = Some c1" and "cc_maxConcurrent c \<le> 0" and "running c = 0"
    and "executing c = []" and "releasing c = []"
  shows "cc_maxConcurrent c1 \<le> 0 \<and> running c1 = 0 \<and> executing c1 = [] \<and> releasing c1 = []
         \<and> admitted c1 = admitted c \<and> settled c1 = settled c"
  using assms
  by (cases ev) (auto simp: cc_step_def execute_def processQueue_def split: if_splits)

lemma zero_limit_admits_nothing:
  assumes "cc_run c evs = Some c1" and "cc_maxConcurrent c \<le> 0" and "running c = 0"
    and "executing c = []" and "releasing c = []"
  shows "admitted c1 = admitted c \<and> settled c1 = settled c"
  using assms
proof (induction evs arbitrary: c)
  case Nil
  then show ?case by simp
next
  case (Cons ev evs)
  from Cons.prems(1) obtain c2 where s: "cc_step c ev = Some c2" and r: "cc_run c2 evs = Some c1"
    by (auto split: option.splits)
  from zero_limit_step [OF s Cons.prems(2-5)] Cons.IH [OF r] show ?case by simp
qed

section \<open>The removal with retries\<close>

text \<open>
  Claim C7. When the removal call resolves, verification is on, and both membership
  queries reject without a message that says the user is absent, the attempt ends in the
  \<open>catch\<close> block (it does not return true); with attempts left the loop goes on with the
  next attempt after \<open>retryDelay\<close>; on the last attempt the failure warning is sent and
  the function returns false, or throws the error of that send; in no case does the last
  attempt return true.
\<close>

theorem unconfirmed_verification_is_failure:
  assumes "i < retryAttempts cfg" and "verifyKickResult cfg"
    and "kickGuildMember e (length (trace w)) = Resolves ()"
    and "getGuildMemberList e (length (trace w) + 2) = Rejects msg1"
    and "getGuildMember e (length (trace w) + 3) = Rejects msg"
    and "\<not> js_includes msg not_found" and "\<not> js_includes msg user_not_exist"
    and "w' = w\<lparr>trace := trace w @ [KickGuildMember (s_guildId s) userId, Sleep (verifyDelay cfg),
                   GetGuildMemberList (s_guildId s), GetGuildMember (s_guildId s) userId]\<rparr>"
  shows "kick_try cfg e s userId displayName i w = (Inl (ApiError msg), w')
     \<and> (i < retryAttempts cfg - 1 \<longrightarrow>
          kick_loop cfg e s userId displayName i w
            = kick_loop cfg e s userId displayName (i + 1) (sleep (retryDelay cfg) w'))
     \<and> (i = retryAttempts cfg - 1 \<longrightarrow>
          kick_loop cfg e s userId displayName i w
            = (case session_send e s (WarnKickFailed displayName) w' of
                 (None, w2) \<Rightarrow> (Inr False, w2)
               | (Some err, w2) \<Rightarrow> (Inl err, w2)))
     \<and> fst (kick_loop cfg e s userId displayName (retryAttempts cfg - 1) w) \<noteq> Inr True"
proof -
  have v: "verifyUserKicked e s userId
             (sleep (verifyDelay cfg) (emit (KickGuildMember (s_guildId s) userId) w))
           = (Inl (ApiError msg), w')"
    using assms(4-8) by (simp add: verifyUserKicked_def sleep_def emit_def Let_def eval_nat_numeral)
  have t: "kick_try cfg e s userId displayName i w = (Inl (ApiError msg), w')"
    using assms(2,3) v by (simp add: kick_try_def Let_def)
  have l: "kick_loop cfg e s userId displayName (retryAttempts cfg) w2 = (Inr False, w2)" for w2
    using kick_loop.simps [of cfg e s userId displayName "retryAttempts cfg" w2] by simp
  have u: "kick_loop cfg e s userId displayName j w
            = (if j < retryAttempts cfg - 1
               then kick_loop cfg e s userId displayName (j + 1) (sleep (retryDelay cfg) w')
               else (case session_send e s (WarnKickFailed displayName) w' of
                       (None, w2) \<Rightarrow> kick_loop cfg e s userId displayName (j + 1) w2
                     | (Some err, w2) \<Rightarrow> (Inl err, w2)))"
    if "j < retryAttempts cfg" and "kick_try cfg e s userId displayName j w = (Inl (ApiError msg), w')"
    for j
    using that kick_loop.simps [of cfg e s userId displayName j w] by simp
  have r: "i < retryAttempts cfg - 1 \<longrightarrow>
          kick_loop cfg e s userId displayName i w
            = kick_loop cfg e s userId displayName (i + 1) (sleep (retryDelay cfg) w')"
    using u [OF assms(1) t] by simp
  have f: "i = retryAttempts cfg - 1 \<longrightarrow>
          kick_loop cfg e s userId displayName i w
            = (case session_send e s (WarnKickFailed displayName) w' of
                 (None, w2) \<Rightarrow> (Inr False, w2)
               | (Some err, w2) \<Rightarrow> (Inl err, w2))"
  proof
    assume il: "i = retryAttempts cfg - 1"
    then have "i + 1 = retryAttempts cfg" by simp
    then show "kick_loop cfg e s userId displayName i w
            = (case session_send e s (WarnKickFailed displayName) w' of
                 (None, w2) \<Rightarrow> (Inr False, w2)
               | (Some err, w2) \<Rightarrow> (Inl err, w2))"
      using u [OF assms(1) t] il l by (simp split: prod.splits option.splits)
  qed
  have t2: "kick_try cfg e s userId displayName (retryAttempts cfg - 1) w = (Inl (ApiError msg), w')"
    using assms(2,3) v by (simp add: kick_try_def Let_def)
  have n: "fst (kick_loop cfg e s userId displayName (retryAttempts cfg - 1) w) \<noteq> Inr True"
  proof -
    have lt: "retryAttempts cfg - 1 < retryAttempts cfg" by simp
    show ?thesis
      using u [OF lt t2] l by (simp split: prod.splits option.splits)
  qed
  show ?thesis using t r f n by blast
qed

text \<open>One attempt, both queries rejected with \<open>err\<close>: false, after one warning.\<close>

theorem unconfirmed_verification_is_failure_witness:
  "0 < retryAttempts sample_config \<and> verifyKickResult sample_config
   \<and> kickGuildMember failing_env (length (trace sample_world)) = Resolves ()
   \<and> getGuildMemberList failing_env (length (trace sample_world) + 2) = Rejects [0x65, 0x72, 0x72]
   \<and> getGuildMember failing_env (length (trace sample_world) + 3) = Rejects [0x65, 0x72, 0x72]
   \<and> \<not> js_includes [0x65, 0x72, 0x72] not_found
   \<and> \<not> js_includes [0x65, 0x72, 0x72] user_not_exist
   \<and> kickUserWithRetry sample_config failing_env sample_session [0x32, 0x32] [0x62, 0x6F, 0x62]
         sample_world
       = (Inr False,
          sample_world\<lparr>trace :=
            [KickGuildMember [0x67] [0x32, 0x32], Sleep 2000, GetGuildMemberList [0x67],
             GetGuildMember [0x67] [0x32, 0x32], Send (WarnKickFailed [0x62, 0x6F, 0x62]) True]\<rparr>)"
proof -
  have h1: "0 < retryAttempts sample_config" by (simp add: sample_config_def)
  have h2: "verifyKickResult sample_config" by (simp add: sample_config_def)
  have h3: "kickGuildMember failing_env (length (trace sample_world)) = Resolves ()"
    by (simp add: failing_env_def sample_env_def)
  have h4: "getGuildMemberList failing_env (length (trace sample_world) + 2) = Rejects [0x65, 0x72, 0x72]"
    by (simp add: failing_env_def)
  have h5: "getGuildMember failing_env (length (trace sample_world) + 3) = Rejects [0x65, 0x72, 0x72]"
    by (simp add: failing_env_def)
  have h6: "\<not> js_includes [0x65, 0x72, 0x72] not_found" by (simp add: not_found_def)
  have h7: "\<not> js_includes [0x65, 0x72, 0x72] user_not_exist" by (simp add: user_not_exist_def)
  show ?thesis
    using unconfirmed_verification_is_failure [OF h1 h2 h3 h4 h5 h6 h7 refl,
        of sample_session "[0x32, 0x32]" "[0x62, 0x6F, 0x62]"] h1 h2 h3 h4 h5 h6 h7
    by (simp add: kickUserWithRetry_def sample_config_def session_send_def sample_session_def
        failing_env_def sample_env_def sample_world_def emit_def)
qed

text \<open>
  The number of removal calls: each turn of the loop makes one, and the loop makes at most
  \<open>retryAttempts\<close> turns.
\<close>

lemma kick_calls_session_send: "kick_calls (snd (session_send e s msg w)) = kick_calls w"
  by (simp add: session_send_def kick_calls_def emit_def is_kick_def split: response.splits)

lemma kick_calls_verify: "kick_calls (snd (verifyUserKicked e s userId w)) = kick_calls w"
  by (simp add: verifyUserKicked_def kick_calls_def emit_def is_kick_def Let_def
      split: response.splits)

lemma kick_calls_sleep: "kick_calls (sleep ms w) = kick_calls w"
  by (simp add: sleep_def kick_calls_def emit_def is_kick_def)

lemma kick_calls_emit_kick: "kick_calls (emit (KickGuildMember g u) w) = Suc (kick_calls w)"
  by (simp add: kick_calls_def emit_def is_kick_def)

lemma kick_calls_kick_try:
  "kick_calls (snd (kick_try cfg e s userId displayName i w)) = Suc (kick_calls w)"
proof -
  let ?w1 = "emit (KickGuildMember (s_guildId s) userId) w"
  let ?v = "verifyUserKicked e s userId (sleep (verifyDelay cfg) ?w1)"
  have v: "kick_calls (snd ?v) = Suc (kick_calls w)"
    by (simp add: kick_calls_verify kick_calls_sleep kick_calls_emit_kick)
  have s: "kick_calls (snd (session_send e s (WarnStillInGroup displayName) (snd ?v)))
             = Suc (kick_calls w)"
    by (simp add: kick_calls_session_send v)
  show ?thesis
    using v s
    by (cases ?v; cases "session_send e s (WarnStillInGroup displayName) (snd ?v)")
       (auto simp: kick_try_def Let_def kick_calls_emit_kick split: response.splits sum.splits
          option.splits)
qed

lemma kick_calls_kick_loop:
  "int (kick_calls (snd (kick_loop cfg e s userId displayName i w)))
     \<le> int (kick_calls w) + max 0 (retryAttempts cfg - i)"
proof (induction cfg e s userId displayName i w rule: kick_loop.induct)
  case (1 cfg e s userId displayName i w)
  show ?case
  proof (cases "i < retryAttempts cfg")
    case False
    then show ?thesis by (simp add: kick_loop.simps [of cfg e s userId displayName i w])
  next
    case True
    obtain r w1 where t: "kick_try cfg e s userId displayName i w = (r, w1)"
      by (cases "kick_try cfg e s userId displayName i w")
    have k1: "kick_calls w1 = Suc (kick_calls w)"
      using kick_calls_kick_try [of cfg e s userId displayName i w] t by simp
    show ?thesis
    proof (cases r)
      case (Inr b)
      then show ?thesis
        using True t k1 by (simp add: kick_loop.simps [of cfg e s userId displayName i w])
    next
      case (Inl err)
      show ?thesis
      proof (cases "i < retryAttempts cfg - 1")
        case lt: True
        have "int (kick_calls (snd (kick_loop cfg e s userId displayName (i + 1)
                 (sleep (retryDelay cfg) w1))))
              \<le> int (kick_calls (sleep (retryDelay cfg) w1)) + max 0 (retryAttempts cfg - (i + 1))"
          using "1.IH"(1) [OF True t [symmetric] _ lt] Inl by simp
        then show ?thesis
          using True t Inl lt k1
          by (simp add: kick_loop.simps [of cfg e s userId displayName i w] kick_calls_sleep)
      next
        case ge: False
        obtain sent w2 where ss: "session_send e s (WarnKickFailed displayName) w1 = (sent, w2)"
          by (cases "session_send e s (WarnKickFailed displayName) w1")
        have k2: "kick_calls w2 = Suc (kick_calls w)"
          using kick_calls_session_send [of e s "WarnKickFailed displayName" w1] ss k1 by simp
        have last: "i + 1 = retryAttempts cfg" using True ge by simp
        have "kick_loop cfg e s userId displayName (retryAttempts cfg) w2 = (Inr False, w2)"
          by (simp add: kick_loop.simps [of cfg e s userId displayName "retryAttempts cfg" w2])
        then have stop: "kick_loop cfg e s userId displayName (i + 1) w2 = (Inr False, w2)"
          using last by simp
        show ?thesis
          using True t Inl ge ss k2 stop
          by (cases sent) (simp_all add: kick_loop.simps [of cfg e s userId displayName i w])
      qed
    qed
  qed
qed

lemma kickUserWithRetry_at_most_retryAttempts:
  "int (kick_calls (snd (kickUserWithRetry cfg e s userId displayName w)))
     \<le> int (kick_calls w) + max 0 (retryAttempts cfg)"
  using kick_calls_kick_loop [of cfg e s userId displayName 0 w]
  by (simp add: kickUserWithRetry_def)

text \<open>
  The last attempt with the user still listed, on a session that can send and whose send
  resolves: false, and one warning.
\<close>

lemma final_attempt_still_present:
  assumes "i = retryAttempts cfg - 1" and "i < retryAttempts cfg" and "verifyKickResult cfg"
    and "kickGuildMember e (length (trace w)) = Resolves ()"
    and "getGuildMemberList e (length (trace w) + 2) = Resolves memberList"
    and "list_ex (\<lambda>m. user_id m = userId) memberList"
    and "has_send s" and "send e (length (trace w) + 3) = Resolves ()"
  shows "kick_loop cfg e s userId displayName i w
           = (Inr False,
              w\<lparr>trace := trace w @ [KickGuildMember (s_guildId s) userId, Sleep (verifyDelay cfg),
                   GetGuildMemberList (s_guildId s), Send (WarnStillInGroup displayName) True]\<rparr>)"
  using assms
  by (simp add: kick_loop.simps [of cfg e s userId displayName "retryAttempts cfg - 1" w]
      kick_try_def verifyUserKicked_def session_send_def emit_def sleep_def Let_def
      eval_nat_numeral)

section \<open>The scan\<close>

text \<open>
  Claim C8. When the listing call at the start of a scan rejects, the scan returns with
  the start of the scan and the failure of the scan in the log, the listing call as the
  only call made (no member is classified, no removal is tried), and the manager, its
  statistics included, as it was.
\<close>

theorem scan_listing_failure_aborts:
  assumes "enableJoinScan cfg" and "getGuildMemberList e (length (trace w)) = Rejects msg"
  shows "scanExistingMembers fuel rt cfg e s w
           = Some (Returned (),
                   w\<lparr>trace := trace w @ [GetGuildMemberList (s_guildId s)],
                     log := log w @ [Info_scanStart (s_guildId s), Error_scanFailed]\<rparr>)
         \<and> stats (manager (snd (the (scanExistingMembers fuel rt cfg e s w)))) = stats (manager w)"
  using assms by (simp add: scanExistingMembers_def Let_def logger_def emit_def)

theorem scan_listing_failure_aborts_witness:
  "enableJoinScan sample_config
   \<and> getGuildMemberList failing_env (length (trace sample_world)) = Rejects [0x65, 0x72, 0x72]
   \<and> scanExistingMembers 0 sample_runtime sample_config failing_env sample_session sample_world
       = Some (Returned (),
               sample_world\<lparr>trace := [GetGuildMemberList [0x67]],
                 log := [Info_scanStart [0x67], Error_scanFailed]\<rparr>)"
proof -
  have h1: "enableJoinScan sample_config" by (simp add: sample_config_def)
  have h2: "getGuildMemberList failing_env (length (trace sample_world)) = Rejects [0x65, 0x72, 0x72]"
    by (simp add: failing_env_def)
  show ?thesis
    using scan_listing_failure_aborts [OF h1 h2, of 0 sample_runtime sample_session] h1 h2
    by (simp add: sample_session_def sample_world_def)
qed

section \<open>Delayed rechecks\<close>

text \<open>The handlers at the concrete inputs.\<close>

lemma sample_join:
  "memberAdded sample_runtime sample_config e sample_session p
     = register_recheck sample_config e sample_session [0x62, 0x6F, 0x62] False
         (p\<lparr>pworld := (pworld p)\<lparr>log := log (pworld p) @
            [Info_memberJoined [0x32, 0x32], Info_newMember [0x62, 0x6F, 0x62] [0x32, 0x32]]\<rparr>\<rparr>)"
  if "manager (pworld p) = sample_manager"
  using that
  by (simp add: memberAdded_def sample_config_def sample_session_def resolve_nickname_def
      getUserNickname_def no_nickname_def trim_def is_js_space_def Let_def logger_def
      checkAndKickUser_def kick_decision_def isBlacklisted_def sample_manager_set
      isNicknameBlacklisted_def sample_manager_keywords try_keyword_def sample_runtime_def
      ascii_lower_def)

lemma apply_plugin_manager: "manager (pworld (apply_plugin sample_config)) = sample_manager"
  by (simp add: apply_plugin_def sample_config_def sample_manager_def Let_def)

lemma sample_recheck:
  "delayedNicknameCheck sample_runtime sample_config renamed_env [0x32, 0x32] [0x67] [0x62, 0x6F, 0x62] p
     = (Returned (),
        cache_delete [0x32, 0x32]
          (p\<lparr>pworld := (pworld p)\<lparr>
               trace := trace (pworld p) @
                 [GetGuildMember [0x67] [0x32, 0x32], KickGuildMember [0x67] [0x32, 0x32],
                  Sleep 2000, GetGuildMemberList [0x67]],
               log := log (pworld p) @
                 [Info_nicknameChanged [0x32, 0x32] [0x62, 0x6F, 0x62] [0x61, 0x64, 0x6D, 0x69, 0x6E],
                  Info_nicknameViolates [0x61, 0x64, 0x6D, 0x69, 0x6E] (Some [0x61, 0x64, 0x6D, 0x69, 0x6E]),
                  Info_found [0x61, 0x64, 0x6D, 0x69, 0x6E] [0x32, 0x32]
                    (NicknameBlacklist (Some [0x61, 0x64, 0x6D, 0x69, 0x6E])),
                  Info_kicked [0x61, 0x64, 0x6D, 0x69, 0x6E] [0x32, 0x32]
                    (NicknameBlacklist (Some [0x61, 0x64, 0x6D, 0x69, 0x6E]))]\<rparr>\<rparr>))"
  if "manager (pworld p) = sample_manager"
  using that
  by (simp add: delayedNicknameCheck_def renamed_env_def sample_env_def sample_member_def
      getUserNickname_def trim_def is_js_space_def Let_def logger_def emit_def sleep_def
      checkAndKickUser_def kick_decision_def isBlacklisted_def sample_manager_set
      isNicknameBlacklisted_def sample_manager_keywords try_keyword_def sample_runtime_def
      ascii_lower_def sample_config_def execute_idle_def kickUserWithRetry_def kick_loop.simps
      kick_try_def verifyUserKicked_def)

lemma apply_plugin_log: "length (log (pworld (apply_plugin sample_config))) = 6"
  by (simp add: apply_plugin_def Let_def sample_config_def)

lemma stuck_recheck:
  "delayedNicknameCheck sample_runtime sample_config stuck_env [0x32, 0x32] [0x67] [0x62, 0x6F, 0x62] p
     = (Returned (),
        cache_delete [0x32, 0x32]
          (p\<lparr>pworld := (pworld p)\<lparr>
               trace := trace (pworld p) @
                 [GetGuildMember [0x67] [0x32, 0x32], KickGuildMember [0x67] [0x32, 0x32],
                  Sleep 2000, GetGuildMemberList [0x67]],
               log := log (pworld p) @
                 [Info_nicknameChanged [0x32, 0x32] [0x62, 0x6F, 0x62] [0x61, 0x64, 0x6D, 0x69, 0x6E],
                  Info_nicknameViolates [0x61, 0x64, 0x6D, 0x69, 0x6E] (Some [0x61, 0x64, 0x6D, 0x69, 0x6E]),
                  Info_found [0x61, 0x64, 0x6D, 0x69, 0x6E] [0x32, 0x32]
                    (NicknameBlacklist (Some [0x61, 0x64, 0x6D, 0x69, 0x6E])),
                  Warn_delayedCheckFailed [0x32, 0x32]]\<rparr>\<rparr>))"
  if "manager (pworld p) = sample_manager"
  using that
  by (simp add: delayedNicknameCheck_def stuck_env_def renamed_env_def sample_env_def sample_member_def
      getUserNickname_def trim_def is_js_space_def Let_def logger_def emit_def sleep_def
      checkAndKickUser_def kick_decision_def isBlacklisted_def sample_manager_set
      isNicknameBlacklisted_def sample_manager_keywords try_keyword_def sample_runtime_def
      ascii_lower_def sample_config_def execute_idle_def kickUserWithRetry_def kick_loop.simps
      kick_try_def verifyUserKicked_def session_send_def)

lemma apply_plugin_fields:
  "trace (pworld (apply_plugin cfg)) = []" "timeouts (apply_plugin cfg) = []"
  "newUserNicknameCache (apply_plugin cfg) = Map.empty"
  by (simp_all add: apply_plugin_def Let_def)

text \<open>
  What a registration does: it puts its entry in the cache at the user's identifier, in
  the place of any entry there, and arms one more timer; the timers armed before stay.
\<close>

lemma registration_replaces_entry_keeps_timers:
  assumes "\<not> immediateCheckResult" and "enableDelayedNicknameCheck cfg" and "nickname \<noteq> s_userId s"
  shows "newUserNicknameCache (register_recheck cfg e s nickname immediateCheckResult p) (s_userId s)
           = Some \<lparr>ce_nickname = nickname, ce_guildId = s_guildId s,
                   joinTime = now e (length (trace (pworld p)))\<rparr>
         \<and> (userId \<noteq> s_userId s \<longrightarrow>
              newUserNicknameCache (register_recheck cfg e s nickname immediateCheckResult p) userId
                = newUserNicknameCache p userId)
         \<and> timeouts (register_recheck cfg e s nickname immediateCheckResult p)
             = timeouts p @ [RecheckTimer (s_userId s) (s_guildId s) nickname]"
  using assms by (simp add: register_recheck_def Let_def logger_def)

text \<open>
  No event but its own firing takes an armed timer away: not a further join of the same
  user, and not the disposal.
\<close>

lemma timers_stay_armed:
  assumes "plugin_step rt cfg e p ev = Some p'" and "\<forall>k. ev \<noteq> TimeoutFires k"
  shows "take (length (timeouts p)) (timeouts p') = timeouts p"
proof (cases ev)
  case (MemberAdded s)
  have r: "take (length (timeouts q)) (timeouts (register_recheck cfg e s n b q)) = timeouts q"
    for n b q
    by (simp add: register_recheck_def Let_def)
  have "take (length (timeouts p)) (timeouts (memberAdded rt cfg e s p)) = timeouts p"
    using r [of "p\<lparr>pworld := w\<rparr>" for w]
    by (simp add: memberAdded_def Let_def split: prod.splits outcome.splits)
  then show ?thesis using assms(1) MemberAdded by (simp add: plugin_step_def)
next
  case (TimeoutFires k)
  then show ?thesis using assms(2) by simp
next
  case IntervalFires
  then show ?thesis using assms(1) by (auto simp: plugin_step_def reload_def split: if_splits)
next
  case Dispose
  then show ?thesis using assms(1) by (auto simp: plugin_step_def dispose_def)
qed

text \<open>
  Claim C3 at a concrete run: the same member joins twice before a timer has fired. The
  second registration does not supersede the first: two timers are armed for the member;
  both fire, and the member, who has taken a blacklisted nickname, is looked up and
  removed twice.
\<close>

theorem superseded_registration_fires:
  "map_option timeouts
     (plugin_run sample_runtime sample_config renamed_env (apply_plugin sample_config)
        [MemberAdded sample_session, MemberAdded sample_session])
     = Some [RecheckTimer [0x32, 0x32] [0x67] [0x62, 0x6F, 0x62],
             RecheckTimer [0x32, 0x32] [0x67] [0x62, 0x6F, 0x62]]
   \<and> map_option (\<lambda>p. trace (pworld p))
       (plugin_run sample_runtime sample_config renamed_env (apply_plugin sample_config)
          [MemberAdded sample_session, MemberAdded sample_session, TimeoutFires 0, TimeoutFires 0])
     = Some [GetGuildMember [0x67] [0x32, 0x32], KickGuildMember [0x67] [0x32, 0x32],
             Sleep 2000, GetGuildMemberList [0x67],
             GetGuildMember [0x67] [0x32, 0x32], KickGuildMember [0x67] [0x32, 0x32],
             Sleep 2000, GetGuildMemberList [0x67]]"
  by (simp add: plugin_step_def sample_join sample_recheck apply_plugin_manager
      apply_plugin_fields register_recheck_def cache_delete_def logger_def Let_def
      sample_config_def [THEN arg_cong [of _ _ enableDelayedNicknameCheck]]
      sample_session_def [THEN arg_cong [of _ _ s_userId]]
      sample_session_def [THEN arg_cong [of _ _ s_guildId]])

text \<open>
  Claim C9 at a concrete run: a member joins and the plugin is disposed; the cache is
  empty and the interval is cleared, the timer of the member is still armed; it fires,
  and the recheck looks the member up and removes the member after the disposal.
\<close>

theorem recheck_runs_after_dispose:
  "map_option (\<lambda>p. (timeouts p, newUserNicknameCache p [0x32, 0x32], configCheckInterval p))
     (plugin_run sample_runtime sample_config renamed_env (apply_plugin sample_config)
        [MemberAdded sample_session, Dispose])
     = Some ([RecheckTimer [0x32, 0x32] [0x67] [0x62, 0x6F, 0x62]], None, False)
   \<and> map_option (\<lambda>p. trace (pworld p))
       (plugin_run sample_runtime sample_config renamed_env (apply_plugin sample_config)
          [MemberAdded sample_session, Dispose, TimeoutFires 0])
     = Some [GetGuildMember [0x67] [0x32, 0x32], KickGuildMember [0x67] [0x32, 0x32],
             Sleep 2000, GetGuildMemberList [0x67]]"
  by (simp add: plugin_step_def sample_join sample_recheck apply_plugin_manager
      apply_plugin_fields register_recheck_def cache_delete_def logger_def Let_def dispose_def
      sample_config_def [THEN arg_cong [of _ _ enableDelayedNicknameCheck]]
      sample_session_def [THEN arg_cong [of _ _ s_userId]]
      sample_session_def [THEN arg_cong [of _ _ s_guildId]])

text \<open>
  Claim C2 at a concrete run: one attempt, verification on, the removal call resolves and
  the user is still listed, on the session that the delayed recheck builds, which has no
  \<open>send\<close>. \<open>kickUserWithRetry\<close> throws instead of returning false, and no
  message is sent; in the run of the plugin the recheck ends with its own warning in the
  log.
\<close>

theorem warning_send_throws:
  "kickUserWithRetry sample_config sample_env (sample_session\<lparr>has_send := False\<rparr>)
     [0x32, 0x32] [0x62, 0x6F, 0x62] sample_world
   = (Inl SendIsNotAFunction,
      sample_world\<lparr>trace :=
        [KickGuildMember [0x67] [0x32, 0x32], Sleep 2000, GetGuildMemberList [0x67]]\<rparr>)
   \<and> map_option (\<lambda>p. (trace (pworld p), drop 9 (log (pworld p))))
       (plugin_run sample_runtime sample_config stuck_env (apply_plugin sample_config)
          [MemberAdded sample_session, TimeoutFires 0])
     = Some ([GetGuildMember [0x67] [0x32, 0x32], KickGuildMember [0x67] [0x32, 0x32],
              Sleep 2000, GetGuildMemberList [0x67]],
             [Info_nicknameChanged [0x32, 0x32] [0x62, 0x6F, 0x62] [0x61, 0x64, 0x6D, 0x69, 0x6E],
              Info_nicknameViolates [0x61, 0x64, 0x6D, 0x69, 0x6E] (Some [0x61, 0x64, 0x6D, 0x69, 0x6E]),
              Info_found [0x61, 0x64, 0x6D, 0x69, 0x6E] [0x32, 0x32]
                (NicknameBlacklist (Some [0x61, 0x64, 0x6D, 0x69, 0x6E])),
              Warn_delayedCheckFailed [0x32, 0x32]])"
proof -
  have a: "kickUserWithRetry sample_config sample_env (sample_session\<lparr>has_send := False\<rparr>)
     [0x32, 0x32] [0x62, 0x6F, 0x62] sample_world
   = (Inl SendIsNotAFunction,
      sample_world\<lparr>trace :=
        [KickGuildMember [0x67] [0x32, 0x32], Sleep 2000, GetGuildMemberList [0x67]]\<rparr>)"
    by (simp add: kickUserWithRetry_def kick_loop.simps kick_try_def
      verifyUserKicked_def session_send_def sample_config_def sample_env_def sample_session_def
      sample_world_def sample_member_def emit_def sleep_def)
  have b: "map_option (\<lambda>p. (trace (pworld p), drop 9 (log (pworld p))))
       (plugin_run sample_runtime sample_config stuck_env (apply_plugin sample_config)
          [MemberAdded sample_session, TimeoutFires 0])
     = Some ([GetGuildMember [0x67] [0x32, 0x32], KickGuildMember [0x67] [0x32, 0x32],
              Sleep 2000, GetGuildMemberList [0x67]],
             [Info_nicknameChanged [0x32, 0x32] [0x62, 0x6F, 0x62] [0x61, 0x64, 0x6D, 0x69, 0x6E],
              Info_nicknameViolates [0x61, 0x64, 0x6D, 0x69, 0x6E] (Some [0x61, 0x64, 0x6D, 0x69, 0x6E]),
              Info_found [0x61, 0x64, 0x6D, 0x69, 0x6E] [0x32, 0x32]
                (NicknameBlacklist (Some [0x61, 0x64, 0x6D, 0x69, 0x6E])),
              Warn_delayedCheckFailed [0x32, 0x32]])"
    using apply_plugin_log
    by (simp add: plugin_step_def sample_join stuck_recheck apply_plugin_manager
      apply_plugin_fields register_recheck_def cache_delete_def logger_def Let_def
      sample_config_def [THEN arg_cong [of _ _ enableDelayedNicknameCheck]]
      sample_session_def [THEN arg_cong [of _ _ s_userId]]
      sample_session_def [THEN arg_cong [of _ _ s_guildId]])
  show ?thesis using a b by blast
qed

end
